theory Spec2Isabelle
  imports Main "HOL-Library.Word" "HOL-Library.Sublist"
begin

unbundle bit_operations_syntax

section \<open>Values of the JavaScript runtime\<close>

text \<open>
  A Node.js \<open>Buffer\<close> is a sequence of bytes. A JavaScript string is a sequence of
  UTF-16 code units; its \<open>length\<close> counts code units. The numbers held in \<open>mode\<close>,
  \<open>ttl\<close> and \<open>seq\<close> are integers that the code never reduces to a width before
  writing them, so they are unbounded integers here.
\<close>

type_synonym byte = "8 word"
type_synonym buffer = "byte list"
type_synonym jsstring = "16 word list"

text \<open>An ASCII literal as a JavaScript string.\<close>

definition js :: "string \<Rightarrow> jsstring" where
  "js s = map (\<lambda>c. of_nat (of_char c)) s"

text \<open>
  What the code throws: \<open>assert(cond, msg)\<close> throws an AssertionError carrying the
  message, \<open>throw new Error(msg)\<close> an Error, an out-of-range Buffer read or write a
  RangeError, a conversion the language refuses (destructuring \<open>undefined\<close>, a BigInt or
  a Symbol to a number) a TypeError. \<open>Thrown\<close> stands for whatever an external
  capability throws.
\<close>

datatype error =
    AssertionError string
  | Error string
  | RangeError
  | TypeError
  | Thrown string

section \<open>Buffer operations of the runtime\<close>

text \<open>\<open>Buffer.alloc(n)\<close>: \<open>n\<close> zero bytes.\<close>

definition alloc :: "nat \<Rightarrow> buffer" where
  "alloc n = replicate n 0"

text \<open>
  \<open>buf.writeUInt8(value, offset)\<close> and \<open>buf.writeUInt16LE(value, offset)\<close> throw a
  RangeError when the value is outside the range of the width or the write would leave
  the buffer.
\<close>

definition writeUInt8 :: "buffer \<Rightarrow> int \<Rightarrow> nat \<Rightarrow> error + buffer" where
  "writeUInt8 buf v offset =
     (if v < 0 \<or> 255 < v \<or> length buf < offset + 1 then Inl RangeError
      else Inr (buf[offset := of_int v]))"

definition writeUInt16LE :: "buffer \<Rightarrow> int \<Rightarrow> nat \<Rightarrow> error + buffer" where
  "writeUInt16LE buf v offset =
     (if v < 0 \<or> 65535 < v \<or> length buf < offset + 2 then Inl RangeError
      else Inr (buf[offset := of_int (v mod 256), offset + 1 := of_int (v div 256)]))"

text \<open>The reads throw a RangeError when they would leave the buffer.\<close>

definition readInt8 :: "buffer \<Rightarrow> nat \<Rightarrow> error + int" where
  "readInt8 buf offset =
     (if length buf < offset + 1 then Inl RangeError else Inr (sint (buf ! offset)))"

definition readUInt8 :: "buffer \<Rightarrow> nat \<Rightarrow> error + int" where
  "readUInt8 buf offset =
     (if length buf < offset + 1 then Inl RangeError else Inr (uint (buf ! offset)))"

definition readUInt16LE :: "buffer \<Rightarrow> nat \<Rightarrow> error + int" where
  "readUInt16LE buf offset =
     (if length buf < offset + 2 then Inl RangeError
      else Inr (uint (buf ! offset) + 256 * uint (buf ! (offset + 1))))"

text \<open>
  \<open>source.copy(target, targetStart)\<close>: copies as many bytes of \<open>source\<close> as fit into
  \<open>target\<close> from \<open>targetStart\<close> on; nothing when \<open>targetStart\<close> is at or past the end.
\<close>

definition copy :: "buffer \<Rightarrow> buffer \<Rightarrow> nat \<Rightarrow> buffer" where
  "copy source target targetStart =
     (if length target \<le> targetStart then target
      else take targetStart target
           @ take (length target - targetStart) source
           @ drop (targetStart + length source) target)"

text \<open>\<open>buf.slice(start, end)\<close> for non-negative arguments: both are clamped to the length.\<close>

definition slice_buf :: "buffer \<Rightarrow> nat \<Rightarrow> nat \<Rightarrow> buffer" where
  "slice_buf buf start stop = drop start (take stop buf)"

subsection \<open>The hex encoding\<close>

definition hexdigit :: "nat \<Rightarrow> 16 word" where
  "hexdigit n = of_nat (of_char (''0123456789abcdef'' ! n))"

text \<open>The hex encoding of bytes: two lower-case digits per byte.\<close>

definition hex_encode :: "buffer \<Rightarrow> jsstring" where
  "hex_encode bs = concat (map (\<lambda>b. [hexdigit (unat b div 16), hexdigit (unat b mod 16)]) bs)"

text \<open>\<open>buf.toString('hex', start, end)\<close>: the hex encoding of the slice.\<close>

definition toString_hex :: "buffer \<Rightarrow> nat \<Rightarrow> nat \<Rightarrow> jsstring" where
  "toString_hex buf start stop = hex_encode (slice_buf buf start stop)"

text \<open>
  The value of a hex digit, of either case. The runtime's hex writer looks only at the
  low byte of each code unit.
\<close>

definition unhex :: "16 word \<Rightarrow> nat option" where
  "unhex c =
     (let n = unat c mod 256 in
      if 48 \<le> n \<and> n \<le> 57 then Some (n - 48)
      else if 97 \<le> n \<and> n \<le> 102 then Some (n - 87)
      else if 65 \<le> n \<and> n \<le> 70 then Some (n - 55)
      else None)"

text \<open>
  Decoding a hex string into at most \<open>n\<close> bytes: pairs of digits, stopping at the first
  pair that is not two hex digits; a trailing single character is dropped.
\<close>

fun hex_decode :: "jsstring \<Rightarrow> nat \<Rightarrow> buffer" where
  "hex_decode (a # b # cs) (Suc n) =
     (case (unhex a, unhex b) of
        (Some x, Some y) \<Rightarrow> of_nat (16 * x + y) # hex_decode cs n
      | _ \<Rightarrow> [])"
| "hex_decode _ _ = []"

text \<open>
  \<open>buf.write(string, offset, length, 'hex')\<close>: a RangeError when \<open>offset\<close> or \<open>length\<close>
  exceeds the buffer's length; otherwise at most \<open>length\<close> decoded bytes, and no more
  than fit, are written at \<open>offset\<close>.
\<close>

definition write_hex :: "buffer \<Rightarrow> jsstring \<Rightarrow> nat \<Rightarrow> nat \<Rightarrow> error + buffer" where
  "write_hex buf string offset len =
     (if length buf < offset \<or> length buf < len then Inl RangeError
      else Inr (copy (hex_decode string (min len (length buf - offset))) buf offset))"

subsection \<open>UTF-8\<close>

text \<open>The UTF-8 bytes of one code point.\<close>

definition utf8_bytes :: "nat \<Rightarrow> buffer" where
  "utf8_bytes cp =
     (if cp < 0x80 then [of_nat cp]
      else if cp < 0x800 then [of_nat (0xC0 + cp div 64), of_nat (0x80 + cp mod 64)]
      else if cp < 0x10000 then
        [of_nat (0xE0 + cp div 4096), of_nat (0x80 + cp div 64 mod 64), of_nat (0x80 + cp mod 64)]
      else
        [of_nat (0xF0 + cp div 262144), of_nat (0x80 + cp div 4096 mod 64),
         of_nat (0x80 + cp div 64 mod 64), of_nat (0x80 + cp mod 64)])"

definition is_high_surrogate :: "16 word \<Rightarrow> bool" where
  "is_high_surrogate u = (0xD800 \<le> unat u \<and> unat u < 0xDC00)"

definition is_low_surrogate :: "16 word \<Rightarrow> bool" where
  "is_low_surrogate u = (0xDC00 \<le> unat u \<and> unat u < 0xE000)"

text \<open>The code point of a code unit standing alone: U+FFFD for an unpaired surrogate.\<close>

definition lone_unit :: "16 word \<Rightarrow> nat" where
  "lone_unit u = (if is_high_surrogate u \<or> is_low_surrogate u then 0xFFFD else unat u)"

text \<open>
  \<open>Buffer.from(string)\<close>: the UTF-8 encoding of a string. A surrogate pair is one code
  point of four bytes.
\<close>

fun utf8_encode :: "jsstring \<Rightarrow> buffer" where
  "utf8_encode [] = []"
| "utf8_encode [u] = utf8_bytes (lone_unit u)"
| "utf8_encode (u # v # us) =
     (if is_high_surrogate u \<and> is_low_surrogate v then
        utf8_bytes (0x10000 + (unat u - 0xD800) * 1024 + (unat v - 0xDC00)) @ utf8_encode us
      else utf8_bytes (lone_unit u) @ utf8_encode (v # us))"

text \<open>The UTF-16 code units of one code point.\<close>

definition utf16_units :: "nat \<Rightarrow> jsstring" where
  "utf16_units cp =
     (if cp < 0x10000 then [of_nat cp]
      else [of_nat (0xD800 + (cp - 0x10000) div 1024), of_nat (0xDC00 + (cp - 0x10000) mod 1024)])"

text \<open>
  \<open>buf.toString('utf8')\<close>: the UTF-8 decoder with replacement. The state is the code
  point collected so far, the number of continuation bytes still needed and the bounds
  of the next continuation byte. A byte that cannot continue the sequence ends it with
  U+FFFD and is read again as the start of a new sequence.
\<close>

function utf8_decode :: "nat \<Rightarrow> nat \<Rightarrow> nat \<Rightarrow> nat \<Rightarrow> buffer \<Rightarrow> jsstring" where
  "utf8_decode cp needed lo hi [] = (if needed = 0 then [] else utf16_units 0xFFFD)"
| "utf8_decode cp needed lo hi (b # bs) =
     (let n = unat b in
      if needed = 0 then
        if n < 0x80 then utf16_units n @ utf8_decode 0 0 0x80 0xBF bs
        else if 0xC2 \<le> n \<and> n \<le> 0xDF then utf8_decode (n - 0xC0) 1 0x80 0xBF bs
        else if 0xE0 \<le> n \<and> n \<le> 0xEF then
          utf8_decode (n - 0xE0) 2 (if n = 0xE0 then 0xA0 else 0x80) (if n = 0xED then 0x9F else 0xBF) bs
        else if 0xF0 \<le> n \<and> n \<le> 0xF4 then
          utf8_decode (n - 0xF0) 3 (if n = 0xF0 then 0x90 else 0x80) (if n = 0xF4 then 0x8F else 0xBF) bs
        else utf16_units 0xFFFD @ utf8_decode 0 0 0x80 0xBF bs
      else if n < lo \<or> hi < n then utf16_units 0xFFFD @ utf8_decode 0 0 0x80 0xBF (b # bs)
      else if needed = 1 then utf16_units (cp * 64 + (n - 0x80)) @ utf8_decode 0 0 0x80 0xBF bs
      else utf8_decode (cp * 64 + (n - 0x80)) (needed - 1) 0x80 0xBF bs)"
  by pat_completeness auto
termination
  by (relation "measure (\<lambda>(cp, needed, lo, hi, bs). 2 * length bs + (if needed = 0 then 0 else 1))")
    auto

definition toString_utf8 :: "buffer \<Rightarrow> jsstring" where
  "toString_utf8 buf = utf8_decode 0 0 0x80 0xBF buf"

section \<open>The Identity capability\<close>

text \<open>
  The identity handed to \<open>sign\<close>, \<open>verify\<close>, \<open>encrypt\<close> and \<open>decrypt\<close> is an
  external object: an address and four operations, each of which may throw.
\<close>

record identity =
  address :: jsstring
  id_sign :: "buffer \<Rightarrow> error + buffer"
  id_verify :: "buffer \<Rightarrow> buffer \<Rightarrow> error + bool"
  id_encrypt :: "buffer \<Rightarrow> error + buffer"
  id_decrypt :: "buffer \<Rightarrow> error + buffer"

section \<open>Message\<close>

definition MODE_PLAIN :: int where "MODE_PLAIN = 0"
definition MODE_ENCRYPTED :: int where "MODE_ENCRYPTED = 1"
definition MODE_SIGNED :: int where "MODE_SIGNED = 2"

text \<open>
  The fields of a Message object. The three Buffer fields are of type \<open>'b\<close>: byte
  sequences where only the contents matter, references into a store where sharing
  matters.
\<close>

record 'b message =
  mode :: int
  seq :: int
  "from" :: jsstring
  to :: jsstring
  ttl :: int
  command :: jsstring
  payload :: 'b
  signature :: 'b
  encrypted :: 'b

text \<open>
  What the constructor accepts for \<open>payload\<close>, \<open>signature\<close> and \<open>encrypted\<close>: a
  string, a Buffer, or any other value, which stands here as the text that
  \<open>JSON.stringify\<close> gives for it.
\<close>

datatype 'b bufferlike = Str jsstring | Buf 'b | Json jsstring

text \<open>
  \<open>toBuffer\<close>: an absent argument is an empty Buffer, a string is encoded as UTF-8, a
  Buffer is returned as it is, anything else is stringified and encoded.
\<close>

definition toBuffer :: "buffer bufferlike option \<Rightarrow> buffer" where
  "toBuffer p =
     (case p of
        None \<Rightarrow> alloc 0
      | Some (Str s) \<Rightarrow> utf8_encode s
      | Some (Buf b) \<Rightarrow> b
      | Some (Json t) \<Rightarrow> utf8_encode t)"

text \<open>
  The constructor's argument object: every property may be absent, and an absent
  property takes the default of the destructuring pattern.
\<close>

record 'b options =
  opt_mode :: "int option"
  opt_from :: "jsstring option"
  opt_to :: "jsstring option"
  opt_seq :: "int option"
  opt_command :: "jsstring option"
  opt_payload :: "'b bufferlike option"
  opt_ttl :: "int option"
  opt_signature :: "'b bufferlike option"
  opt_encrypted :: "'b bufferlike option"

definition Message :: "buffer options \<Rightarrow> buffer message" where
  "Message opts =
     \<lparr>mode = (case opt_mode opts of None \<Rightarrow> MODE_ENCRYPTED OR MODE_SIGNED | Some v \<Rightarrow> v),
      seq = (case opt_seq opts of None \<Rightarrow> 0 | Some v \<Rightarrow> v),
      from = (case opt_from opts of None \<Rightarrow> [] | Some v \<Rightarrow> v),
      to = (case opt_to opts of None \<Rightarrow> [] | Some v \<Rightarrow> v),
      ttl = (case opt_ttl opts of None \<Rightarrow> 1 | Some v \<Rightarrow> v),
      command = (case opt_command opts of None \<Rightarrow> [] | Some v \<Rightarrow> v),
      payload = toBuffer (opt_payload opts),
      signature = toBuffer (opt_signature opts),
      encrypted = toBuffer (opt_encrypted opts)\<rparr>"

definition hasEncryptFlag :: "'b message \<Rightarrow> bool" where
  "hasEncryptFlag m = (mode m AND MODE_ENCRYPTED \<noteq> 0)"

definition hasSignFlag :: "'b message \<Rightarrow> bool" where
  "hasSignFlag m = (mode m AND MODE_SIGNED \<noteq> 0)"

text \<open>
  \<open>assert(identity && identity.address === addr, msg)\<close>: the argument may be
  \<open>undefined\<close> (\<open>None\<close>), which fails the assertion as a wrong address does.
\<close>

definition assert_identity :: "identity option \<Rightarrow> jsstring \<Rightarrow> string \<Rightarrow> error + identity" where
  "assert_identity identity addr msg =
     (case identity of
        None \<Rightarrow> Inl (AssertionError msg)
      | Some i \<Rightarrow> if address i = addr then Inr i else Inl (AssertionError msg))"

text \<open>
  The four operations mutate \<open>this\<close> by assigning a field; the model returns the
  message after the call, or the error thrown. Their JavaScript return value
  (\<open>undefined\<close> on the early return, \<open>this\<close> otherwise) carries nothing more.
\<close>

definition sign :: "buffer message \<Rightarrow> identity option \<Rightarrow> error + buffer message" where
  "sign m identity =
     (if \<not> hasSignFlag m then Inr m
      else case assert_identity identity (from m) ''Invalid identity to sign with'' of
        Inl e \<Rightarrow> Inl e
      | Inr i \<Rightarrow>
          (let p = (if hasEncryptFlag m then encrypted m else payload m)
           in case id_sign i p of
                Inl e \<Rightarrow> Inl e
              | Inr s \<Rightarrow> Inr (m\<lparr>signature := s\<rparr>)))"

definition verify :: "buffer message \<Rightarrow> identity option \<Rightarrow> error + buffer message" where
  "verify m identity =
     (if \<not> hasSignFlag m then Inr m
      else case assert_identity identity (from m) ''Invalid identity to verify with'' of
        Inl e \<Rightarrow> Inl e
      | Inr i \<Rightarrow>
          (let p = (if hasEncryptFlag m then encrypted m else payload m)
           in case id_verify i p (signature m) of
                Inl e \<Rightarrow> Inl e
              | Inr ok \<Rightarrow> if \<not> ok then Inl (Error ''Invalid signature'') else Inr m))"

definition encrypt :: "buffer message \<Rightarrow> identity option \<Rightarrow> error + buffer message" where
  "encrypt m identity =
     (if \<not> hasEncryptFlag m then Inr m
      else case assert_identity identity (to m) ''Invalid identity to encrypt with'' of
        Inl e \<Rightarrow> Inl e
      | Inr i \<Rightarrow>
          (case id_encrypt i (payload m) of
             Inl e \<Rightarrow> Inl e
           | Inr c \<Rightarrow> Inr (m\<lparr>encrypted := c\<rparr>)))"

definition decrypt :: "buffer message \<Rightarrow> identity option \<Rightarrow> error + buffer message" where
  "decrypt m identity =
     (if \<not> hasEncryptFlag m then Inr m
      else case assert_identity identity (to m) ''Invalid identity to decrypt with'' of
        Inl e \<Rightarrow> Inl e
      | Inr i \<Rightarrow>
          (case id_decrypt i (encrypted m) of
             Inl e \<Rightarrow> Inl e
           | Inr p \<Rightarrow> Inr (m\<lparr>payload := p\<rparr>)))"

subsection \<open>Encoding and decoding\<close>

text \<open>
  \<open>getLengthPrefixed\<close>: one length byte, then the bytes. The length byte is written with
  \<open>writeUInt8\<close>, which throws for a length above 255.
\<close>

definition getLengthPrefixed :: "buffer bufferlike \<Rightarrow> error + buffer" where
  "getLengthPrefixed p =
     (let payload' = toBuffer (Some p);
          buf = alloc (1 + length payload')
      in case writeUInt8 buf (int (length payload')) 0 of
           Inl e \<Rightarrow> Inl e
         | Inr buf \<Rightarrow> Inr (copy payload' buf 1))"

definition readLengthPrefixed :: "buffer \<Rightarrow> nat \<Rightarrow> error + buffer" where
  "readLengthPrefixed buf offset =
     (case readUInt8 buf offset of
        Inl e \<Rightarrow> Inl e
      | Inr len \<Rightarrow> Inr (slice_buf buf (offset + 1) (offset + nat len + 1)))"

text \<open>
  \<open>getBuffer\<close> assigns no field of the message: the result is the buffer or the error
  thrown, and the message is as it was either way. The two bytes at offset 2 are written
  from \<open>mode\<close>, as in the source.
\<close>

definition getBuffer :: "buffer message \<Rightarrow> error + buffer" where
  "getBuffer m =
     (if from m = [] then Inl (AssertionError ''Unset from'')
      else if hasSignFlag m \<and> length (signature m) = 0 then Inl (Error ''Invalid signature'')
      else if hasEncryptFlag m \<and> length (encrypted m) = 0 then Inl (Error ''Invalid encrypted'')
      else
        let payload' = (if hasEncryptFlag m then encrypted m else payload m) in
        case getLengthPrefixed (Str (command m)) of
          Inl e \<Rightarrow> Inl e
        | Inr commandBuf \<Rightarrow>
        let buf = alloc (88 + length commandBuf + length payload') in
        case writeUInt8 buf (mode m) 0 of Inl e \<Rightarrow> Inl e | Inr buf \<Rightarrow>
        case writeUInt8 buf (ttl m) 1 of Inl e \<Rightarrow> Inl e | Inr buf \<Rightarrow>
        case writeUInt16LE buf (mode m) 2 of Inl e \<Rightarrow> Inl e | Inr buf \<Rightarrow>
        case write_hex buf (from m) 4 10 of Inl e \<Rightarrow> Inl e | Inr buf \<Rightarrow>
        case (if to m \<noteq> [] then write_hex buf (to m) 14 10 else Inr buf) of
          Inl e \<Rightarrow> Inl e
        | Inr buf \<Rightarrow>
        let buf = copy (signature m) buf 24;
            buf = copy commandBuf buf 88;
            buf = copy payload' buf (88 + length commandBuf)
        in Inr buf)"

text \<open>
  \<open>fromBuffer\<close>. After the command bytes are decoded, the offset advances by the
  \<open>length\<close> of the decoded string (its UTF-16 code units) plus one, as in the source.
\<close>

definition fromBuffer :: "buffer \<Rightarrow> error + buffer message" where
  "fromBuffer buf =
     (case readInt8 buf 0 of Inl e \<Rightarrow> Inl e | Inr mode' \<Rightarrow>
      case readUInt8 buf 1 of Inl e \<Rightarrow> Inl e | Inr ttl' \<Rightarrow>
      case readUInt16LE buf 2 of Inl e \<Rightarrow> Inl e | Inr seq' \<Rightarrow>
      let from' = toString_hex buf 4 (4 + 10);
          to' = toString_hex buf 14 (14 + 10);
          signature' = slice_buf buf 24 (24 + 64)
      in
      case readLengthPrefixed buf 88 of Inl e \<Rightarrow> Inl e | Inr commandBytes \<Rightarrow>
      let command' = toString_utf8 commandBytes;
          offset = 88 + (length command' + 1);
          payload' = drop offset buf;
          message = Message \<lparr>opt_mode = Some mode', opt_from = Some from', opt_to = Some to',
            opt_seq = Some seq', opt_command = Some command', opt_payload = None,
            opt_ttl = Some ttl', opt_signature = Some (Buf signature'), opt_encrypted = None\<rparr>
      in Inr (if hasEncryptFlag message then message\<lparr>encrypted := payload'\<rparr>
              else message\<lparr>payload := payload'\<rparr>))"

subsection \<open>Message objects over a store of Buffers\<close>

text \<open>
  None of \<open>sign\<close>, \<open>verify\<close>, \<open>encrypt\<close>, \<open>decrypt\<close>, \<open>getBuffer\<close> writes into an
  existing Buffer, so byte sequences stand for Buffers above. Whether two messages
  share a Buffer is a question about references: below, a store holds the Buffer
  objects, a reference is an index into it, and a message's Buffer fields are
  references.
\<close>

type_synonym ref = nat
type_synonym store = "buffer list"

definition new_buffer :: "store \<Rightarrow> buffer \<Rightarrow> ref \<times> store" where
  "new_buffer st b = (length st, st @ [b])"

text \<open>
  \<open>toBuffer\<close> over the store: a string (or stringified value) becomes a new Buffer, an
  absent argument a new empty Buffer; a Buffer argument is returned itself, the same
  object.
\<close>

definition toBuffer_in :: "store \<Rightarrow> ref bufferlike option \<Rightarrow> ref \<times> store" where
  "toBuffer_in st p =
     (case p of
        None \<Rightarrow> new_buffer st (alloc 0)
      | Some (Str s) \<Rightarrow> new_buffer st (utf8_encode s)
      | Some (Buf r) \<Rightarrow> (r, st)
      | Some (Json t) \<Rightarrow> new_buffer st (utf8_encode t))"

definition Message_in :: "store \<Rightarrow> ref options \<Rightarrow> ref message \<times> store" where
  "Message_in st opts =
     (let (p, st) = toBuffer_in st (opt_payload opts);
          (s, st) = toBuffer_in st (opt_signature opts);
          (e, st) = toBuffer_in st (opt_encrypted opts)
      in (\<lparr>mode = (case opt_mode opts of None \<Rightarrow> MODE_ENCRYPTED OR MODE_SIGNED | Some v \<Rightarrow> v),
           seq = (case opt_seq opts of None \<Rightarrow> 0 | Some v \<Rightarrow> v),
           from = (case opt_from opts of None \<Rightarrow> [] | Some v \<Rightarrow> v),
           to = (case opt_to opts of None \<Rightarrow> [] | Some v \<Rightarrow> v),
           ttl = (case opt_ttl opts of None \<Rightarrow> 1 | Some v \<Rightarrow> v),
           command = (case opt_command opts of None \<Rightarrow> [] | Some v \<Rightarrow> v),
           payload = p, signature = s, encrypted = e\<rparr>, st))"

text \<open>
  \<open>clone\<close> is \<open>new Message(this)\<close>: the argument object is the message itself, so every
  property is present and the three Buffer properties hold Buffers.
\<close>

definition options_of :: "'b message \<Rightarrow> 'b options" where
  "options_of m =
     \<lparr>opt_mode = Some (mode m), opt_from = Some (from m), opt_to = Some (to m),
      opt_seq = Some (seq m), opt_command = Some (command m), opt_payload = Some (Buf (payload m)),
      opt_ttl = Some (ttl m), opt_signature = Some (Buf (signature m)),
      opt_encrypted = Some (Buf (encrypted m))\<rparr>"

definition clone :: "store \<Rightarrow> ref message \<Rightarrow> ref message \<times> store" where
  "clone st m = Message_in st (options_of m)"

text \<open>The message a message object stands for: each reference replaced by its Buffer's bytes.\<close>

definition contents :: "store \<Rightarrow> ref message \<Rightarrow> buffer message" where
  "contents st m =
     \<lparr>mode = mode m, seq = seq m, from = from m, to = to m, ttl = ttl m, command = command m,
      payload = st ! payload m, signature = st ! signature m, encrypted = st ! encrypted m\<rparr>"

text \<open>Writing one byte into a Buffer of the store, as \<open>buf.writeUInt8(v, i)\<close> does.\<close>

definition store_writeUInt8 :: "store \<Rightarrow> ref \<Rightarrow> int \<Rightarrow> nat \<Rightarrow> error + store" where
  "store_writeUInt8 st r v i =
     (case writeUInt8 (st ! r) v i of Inl e \<Rightarrow> Inl e | Inr b \<Rightarrow> Inr (st[r := b]))"

section \<open>Peer\<close>

text \<open>
  The value passed as \<open>timestamp\<close>. \<open>new Date(v)\<close> converts \<open>v\<close> to a primitive
  and, unless that is a string, to a number: it throws a TypeError for a BigInt and for
  a Symbol, and whatever the conversion of an object throws. For every other value (a
  number, a string, a Date, \<open>undefined\<close>, ...) it returns a Date object.
\<close>

datatype 't timestamp_value = Time 't | BigInt int | Symbol string | Raises error

datatype 't date = Date 't

definition new_Date :: "'t timestamp_value \<Rightarrow> error + 't date" where
  "new_Date v =
     (case v of
        Time t \<Rightarrow> Inr (Date t)
      | BigInt n \<Rightarrow> Inl TypeError
      | Symbol d \<Rightarrow> Inl TypeError
      | Raises e \<Rightarrow> Inl e)"

text \<open>A Peer is an Identity with three more fields.\<close>

record ('n, 't) peer = identity +
  networkId :: 'n
  urls :: "jsstring list"
  timestamp :: "'t date"

record ('n, 'k, 't) peer_args =
  arg_networkId :: 'n
  arg_address :: jsstring
  arg_pubKey :: 'k
  arg_urls :: "jsstring list"
  arg_timestamp :: "'t timestamp_value"

text \<open>
  The constructor. Its parameter is a destructuring pattern, so a call without an
  argument object (\<open>None\<close>) throws a TypeError before the body runs.
  \<open>super(pubKey)\<close> runs the constructor of the Identity class, which is not among the
  sources: it is the parameter \<open>Identity\<close>, which from a public key builds the
  identity, its derived address included, or throws. The address check comes before
  \<open>new Date(timestamp)\<close>.
\<close>

definition Peer ::
    "('k \<Rightarrow> error + identity) \<Rightarrow> ('n, 'k, 't) peer_args option \<Rightarrow> error + ('n, 't) peer" where
  "Peer Identity arg =
     (case arg of
        None \<Rightarrow> Inl TypeError
      | Some args \<Rightarrow>
          (case Identity (arg_pubKey args) of
             Inl e \<Rightarrow> Inl e
           | Inr this \<Rightarrow>
               if arg_address args \<noteq> address this then Inl (Error ''Mismatch address'')
               else case new_Date (arg_timestamp args) of
                      Inl e \<Rightarrow> Inl e
                    | Inr d \<Rightarrow>
                        Inr (identity.extend this
                          (peer.fields (arg_networkId args) (arg_urls args) d))))"

record dialer =
  proto :: jsstring

record node =
  dialers :: "dialer list"

definition startsWith :: "jsstring \<Rightarrow> jsstring \<Rightarrow> bool" where
  "startsWith s p = (take (length p) s = p)"

text \<open>
  \<open>getEligibleUrls\<close> is one expression of \<open>filter\<close>, \<open>find\<close> and \<open>startsWith\<close>, none of
  which assigns anything: the peer and the node are as they were, and the result is a
  new array. \<open>find\<close> yields a dialer object or \<open>undefined\<close>, and an object is truthy.
\<close>

definition getEligibleUrls :: "('n, 't) peer \<Rightarrow> node \<Rightarrow> jsstring list" where
  "getEligibleUrls this nd =
     filter (\<lambda>url. find (\<lambda>dialer. startsWith url (proto dialer @ js '':'')) (dialers nd) \<noteq> None)
       (urls this)"

section \<open>Notions of the statements\<close>

text \<open>A field of fixed width: the bytes cut to the width, or filled up with zero bytes.\<close>

definition pad :: "nat \<Rightarrow> buffer \<Rightarrow> buffer" where
  "pad n bs = take n bs @ replicate (n - length bs) 0"

text \<open>An address as the decoder yields it: twenty lower-case hex digits.\<close>

definition lower_hex_digit :: "16 word \<Rightarrow> bool" where
  "lower_hex_digit c = (48 \<le> unat c \<and> unat c \<le> 57 \<or> 97 \<le> unat c \<and> unat c \<le> 102)"

definition is_address :: "jsstring \<Rightarrow> bool" where
  "is_address a = (length a = 20 \<and> list_all lower_hex_digit a)"

definition is_ascii :: "jsstring \<Rightarrow> bool" where
  "is_ascii s = list_all (\<lambda>u. unat u < 128) s"

section \<open>Example values\<close>

text \<open>
  A toy identity (signing reverses the bytes, encrypting adds one to each byte), two
  addresses and small messages, for evaluating the operations on concrete inputs.
\<close>

definition toy_identity :: "jsstring \<Rightarrow> identity" where
  "toy_identity a =
     \<lparr>address = a,
      id_sign = (\<lambda>p. Inr (rev p)),
      id_verify = (\<lambda>p s. Inr (s = rev p)),
      id_encrypt = (\<lambda>p. Inr (map (\<lambda>b. b + 1) p)),
      id_decrypt = (\<lambda>c. Inr (map (\<lambda>b. b - 1) c))\<rparr>"

definition alice :: jsstring where
  "alice = js ''00112233445566778899''"

definition bob :: jsstring where
  "bob = js ''aabbccddeeff00112233''"

definition example_message :: "int \<Rightarrow> buffer message" where
  "example_message md =
     \<lparr>mode = md, seq = 1, from = alice, to = bob, ttl = 1, command = js ''ping'',
      payload = [1, 2, 3], signature = [], encrypted = []\<rparr>"

text \<open>The 96 bytes that \<open>getBuffer\<close> gives for \<open>example_message 0\<close>.\<close>

definition example_buffer :: buffer where
  "example_buffer =
     [0, 1, 0, 0,
      0x00, 0x11, 0x22, 0x33, 0x44, 0x55, 0x66, 0x77, 0x88, 0x99,
      0xAA, 0xBB, 0xCC, 0xDD, 0xEE, 0xFF, 0x00, 0x11, 0x22, 0x33]
     @ replicate 64 0
     @ [4, 112, 105, 110, 103]
     @ [1, 2, 3]"

text \<open>A plain message without a recipient, its encoding, and what decoding that gives.\<close>

definition broadcast_message :: "buffer message" where
  "broadcast_message =
     \<lparr>mode = 0, seq = 0, from = alice, to = [], ttl = 1, command = js ''ping'',
      payload = [1, 2, 3], signature = [], encrypted = []\<rparr>"

definition broadcast_buffer :: buffer where
  "broadcast_buffer =
     [0, 1, 0, 0,
      0x00, 0x11, 0x22, 0x33, 0x44, 0x55, 0x66, 0x77, 0x88, 0x99]
     @ replicate 10 0
     @ replicate 64 0
     @ [4, 112, 105, 110, 103]
     @ [1, 2, 3]"

definition broadcast_decoded :: "buffer message" where
  "broadcast_decoded =
     \<lparr>mode = 0, seq = 0, from = alice, to = js ''00000000000000000000'', ttl = 1,
      command = js ''ping'', payload = [1, 2, 3], signature = replicate 64 0, encrypted = []\<rparr>"

text \<open>A message object whose three Buffers are the three entries of a store.\<close>

definition example_store :: store where
  "example_store = [[1, 2, 3], [], []]"

definition example_object :: "ref message" where
  "example_object =
     \<lparr>mode = 0, seq = 1, from = alice, to = bob, ttl = 1, command = js ''ping'',
      payload = 0, signature = 1, encrypted = 2\<rparr>"

text \<open>
  A toy Identity constructor (the address is the key reversed; an empty key is refused);
  constructor arguments with a matching address, with a wrong address, with a matching
  address and a Symbol as timestamp, and with an empty key; a peer and a node.
\<close>

definition toy_Identity :: "jsstring \<Rightarrow> error + identity" where
  "toy_Identity pubKey =
     (if pubKey = [] then Inl (Thrown ''Invalid key'') else Inr (toy_identity (rev pubKey)))"

definition good_args :: "(nat, jsstring, nat) peer_args" where
  "good_args =
     \<lparr>arg_networkId = 7, arg_address = js ''ba'', arg_pubKey = js ''ab'',
      arg_urls = [js ''tcp:1.2.3.4:9''], arg_timestamp = Time 0\<rparr>"

definition bad_args :: "(nat, jsstring, nat) peer_args" where
  "bad_args =
     \<lparr>arg_networkId = 7, arg_address = js ''ab'', arg_pubKey = js ''ab'',
      arg_urls = [js ''tcp:1.2.3.4:9''], arg_timestamp = Time 0\<rparr>"

definition symbol_args :: "(nat, jsstring, nat) peer_args" where
  "symbol_args =
     \<lparr>arg_networkId = 7, arg_address = js ''ba'', arg_pubKey = js ''ab'',
      arg_urls = [js ''tcp:1.2.3.4:9''], arg_timestamp = Symbol ''now''\<rparr>"

definition keyless_args :: "(nat, jsstring, nat) peer_args" where
  "keyless_args =
     \<lparr>arg_networkId = 7, arg_address = js ''ba'', arg_pubKey = [],
      arg_urls = [js ''tcp:1.2.3.4:9''], arg_timestamp = Time 0\<rparr>"

definition tcp_peer :: "(nat, nat) peer" where
  "tcp_peer = identity.extend (toy_identity alice)
     (peer.fields 7 [js ''tcp:1.2.3.4:9'', js ''ws:host/path''] (Date 0))"

definition tcp_node :: node where
  "tcp_node = \<lparr>dialers = [\<lparr>proto = js ''tcp''\<rparr>]\<rparr>"

section \<open>Facts about the runtime operations\<close>

lemma length_pad [simp]: "length (pad n bs) = n"
  by (simp add: pad_def)

lemma length_copy [simp]: "length (copy src tgt k) = length tgt"
  by (auto simp: copy_def)

lemma copy_at:
  "length pre = k \<Longrightarrow>
   copy src (pre @ rest) k = pre @ take (length rest) src @ drop (length src) rest"
  by (auto simp: copy_def)

lemma copy_zeros: "length pre = k \<Longrightarrow> copy src (pre @ replicate n 0) k = pre @ pad n src"
  by (simp add: copy_at pad_def)

lemma pad_split:
  "length s \<le> w \<Longrightarrow> w \<le> N \<Longrightarrow> pad N s = pad w s @ replicate (N - w) 0"
  by (simp add: pad_def replicate_add [symmetric])

lemma take_pad: "take w (pad (w + k) s) = pad w s"
  by (auto simp: pad_def min_def take_Cons')

lemma alloc_header: "alloc (88 + k) = [0, 0, 0, 0] @ replicate (84 + k) 0"
  by (simp add: alloc_def numeral_eq_Suc)

lemma sint_byte: "0 \<le> k \<Longrightarrow> k < 128 \<Longrightarrow> sint (of_int k :: byte) = k"
  by (simp add: sint_sbintrunc' signed_take_bit_int_eq_self)

lemma uint_byte: "0 \<le> k \<Longrightarrow> k \<le> 255 \<Longrightarrow> uint (of_int k :: byte) = k"
  by (simp add: uint_word_of_int)

subsection \<open>Hex\<close>

lemma length_hex_decode: "length (hex_decode s n) \<le> n"
  by (induction s n rule: hex_decode.induct) (auto split: option.splits)

lemma hex_decode_step:
  "hex_decode (a # b # cs) n =
     (if n = 0 then []
      else case (unhex a, unhex b) of
        (Some x, Some y) \<Rightarrow> of_nat (16 * x + y) # hex_decode cs (n - 1)
      | _ \<Rightarrow> [])"
  by (cases n) (simp_all split: option.splits)

lemma hexdigit_values:
  "hexdigit 0 = 48" "hexdigit 1 = 49" "hexdigit 2 = 50" "hexdigit 3 = 51" "hexdigit 4 = 52"
  "hexdigit 5 = 53" "hexdigit 6 = 54" "hexdigit 7 = 55" "hexdigit 8 = 56" "hexdigit 9 = 57"
  "hexdigit 10 = 97" "hexdigit 11 = 98" "hexdigit 12 = 99" "hexdigit 13 = 100"
  "hexdigit 14 = 101" "hexdigit 15 = 102" "hexdigit (Suc 0) = 49"
  by (simp_all add: hexdigit_def)

lemma hexdigit_low: "n < 10 \<Longrightarrow> hexdigit n = of_nat (48 + n)"
proof -
  assume "n < 10"
  then have "n \<in> {0, 1, 2, 3, 4, 5, 6, 7, 8, 9}" by auto
  then show ?thesis by (auto simp: hexdigit_values)
qed

lemma hexdigit_high: "10 \<le> n \<Longrightarrow> n < 16 \<Longrightarrow> hexdigit n = of_nat (87 + n)"
proof -
  assume "10 \<le> n" "n < 16"
  then have "n \<in> {10, 11, 12, 13, 14, 15}" by auto
  then show ?thesis by (auto simp: hexdigit_values)
qed

text \<open>Only the low byte counts: U+0130 U+0131 is read as the digits 0 and 1.\<close>

lemma hex_decode_low_byte: "hex_decode [0x130, 0x131] 10 = [0x01]"
  by (simp add: hex_decode_step unhex_def)

text \<open>A lower-case hex digit is the digit of its own value.\<close>

lemma unhex_lower:
  assumes "lower_hex_digit c"
  shows "\<exists>x<16. unhex c = Some x \<and> hexdigit x = c"
proof -
  from assms consider "48 \<le> unat c \<and> unat c \<le> 57" | "97 \<le> unat c \<and> unat c \<le> 102"
    by (auto simp: lower_hex_digit_def)
  then show ?thesis
  proof cases
    case 1
    then have u: "unhex c = Some (unat c - 48)" by (simp add: unhex_def Let_def)
    have "hexdigit (unat c - 48) = of_nat (48 + (unat c - 48))"
      using 1 by (intro hexdigit_low) auto
    then have "hexdigit (unat c - 48) = c" using 1 by simp
    then show ?thesis using u 1 by auto
  next
    case 2
    then have u: "unhex c = Some (unat c - 87)" by (simp add: unhex_def Let_def)
    have "hexdigit (unat c - 87) = of_nat (87 + (unat c - 87))"
      using 2 by (intro hexdigit_high) auto
    then have "hexdigit (unat c - 87) = c" using 2 by simp
    then show ?thesis using u 2 by auto
  qed
qed

lemma byte_of_digits:
  assumes "x < 16" "y < 16"
  shows "unat (of_nat (16 * x + y) :: byte) div 16 = x"
    and "unat (of_nat (16 * x + y) :: byte) mod 16 = y"
proof -
  have "16 * x + y < 256" using assms by simp
  then have "unat (of_nat (16 * x + y) :: byte) = 16 * x + y"
    by (simp only: unat_of_nat) simp
  then show "unat (of_nat (16 * x + y) :: byte) div 16 = x"
    and "unat (of_nat (16 * x + y) :: byte) mod 16 = y"
    using assms by simp_all
qed

lemma hex_decode_lower:
  "list_all lower_hex_digit s \<Longrightarrow> length s = 2 * n \<Longrightarrow>
   length (hex_decode s n) = n \<and> hex_encode (hex_decode s n) = s"
proof (induction s n rule: hex_decode.induct)
  case (1 a b cs n)
  from 1(2) obtain x where x: "x < 16" "unhex a = Some x" "hexdigit x = a"
    using unhex_lower [of a] by auto
  from 1(2) obtain y where y: "y < 16" "unhex b = Some y" "hexdigit y = b"
    using unhex_lower [of b] by auto
  have ih: "length (hex_decode cs n) = n \<and> hex_encode (hex_decode cs n) = cs"
    using 1 x y by simp
  show ?case
    using x y ih byte_of_digits [OF x(1) y(1)] by (simp add: hex_encode_def)
qed (auto simp: hex_encode_def)

text \<open>Writing an address into its ten-byte field and reading the field back gives the address.\<close>

lemma is_address_roundtrip:
  assumes "is_address a"
  shows "hex_encode (pad 10 (hex_decode a 10)) = a"
proof -
  from assms have "length (hex_decode a 10) = 10 \<and> hex_encode (hex_decode a 10) = a"
    by (intro hex_decode_lower) (simp_all add: is_address_def)
  then show ?thesis by (simp add: pad_def)
qed

subsection \<open>UTF-8 on ASCII strings\<close>

lemma utf8_ascii: "is_ascii s \<Longrightarrow> utf8_encode s = map ucast s"
proof (induction s rule: utf8_encode.induct)
  case 1
  then show ?case by simp
next
  case (2 u)
  then show ?case
    by (simp add: is_ascii_def lone_unit_def is_high_surrogate_def is_low_surrogate_def utf8_bytes_def)
next
  case (3 u v us)
  then show ?case
    by (simp add: is_ascii_def lone_unit_def is_high_surrogate_def is_low_surrogate_def utf8_bytes_def)
qed

lemma byte_of_ascii: "unat u < 128 \<Longrightarrow> unat (ucast u :: byte) = unat u"
  for u :: "16 word"
  by (simp add: unsigned_ucast_eq take_bit_nat_eq_self)

lemma decode_ascii: "is_ascii s \<Longrightarrow> utf8_decode 0 0 0x80 0xBF (map ucast s) = s"
proof (induction s)
  case Nil
  then show ?case by simp
next
  case (Cons u s)
  then have u: "unat u < 128" and s: "is_ascii s" by (simp_all add: is_ascii_def)
  have "utf16_units (unat u) = [u]" using u by (simp add: utf16_units_def)
  then show ?case using Cons.IH [OF s] u byte_of_ascii [OF u] by (simp add: Let_def)
qed

lemma ascii_roundtrip:
  "is_ascii s \<Longrightarrow> toString_utf8 (utf8_encode s) = s \<and> length (utf8_encode s) = length s"
  by (simp add: toString_utf8_def utf8_ascii decode_ascii)

section \<open>The layout of an encoded message\<close>

lemma getLengthPrefixed_Str:
  "length (utf8_encode s) \<le> 255 \<Longrightarrow>
   getLengthPrefixed (Str s) = Inr (of_nat (length (utf8_encode s)) # utf8_encode s)"
  by (auto simp: getLengthPrefixed_def toBuffer_def alloc_def writeUInt8_def copy_def Let_def)

lemma getLengthPrefixed_long:
  "255 < length (utf8_encode s) \<Longrightarrow> getLengthPrefixed (Str s) = Inl RangeError"
  by (simp add: getLengthPrefixed_def toBuffer_def alloc_def writeUInt8_def)


text \<open>
  What \<open>getBuffer\<close> returns when its three checks pass and \<open>mode\<close>, \<open>ttl\<close> and the
  length of the command fit a byte: the four header bytes (the third and fourth from
  \<open>mode\<close>), the two address fields, the signature field, the length-prefixed command,
  the active payload. A signature longer than its field is cut: what the copy writes
  past offset 88 is overwritten by the command and the payload.
\<close>

lemma getBuffer_layout:
  assumes f: "from m \<noteq> []"
    and sg: "\<not> (hasSignFlag m \<and> signature m = [])"
    and en: "\<not> (hasEncryptFlag m \<and> encrypted m = [])"
    and md: "0 \<le> mode m" "mode m \<le> 255"
    and tl: "0 \<le> ttl m" "ttl m \<le> 255"
    and cm: "length (utf8_encode (command m)) \<le> 255"
  shows "getBuffer m =
    Inr ([of_int (mode m), of_int (ttl m), of_int (mode m mod 256), of_int (mode m div 256)]
         @ pad 10 (hex_decode (from m) 10)
         @ pad 10 (hex_decode (to m) 10)
         @ pad 64 (signature m)
         @ (of_nat (length (utf8_encode (command m))) # utf8_encode (command m))
         @ (if hasEncryptFlag m then encrypted m else payload m))"
proof -
  define P where "P = (if hasEncryptFlag m then encrypted m else payload m)"
  define L where "L = of_nat (length (utf8_encode (command m))) # utf8_encode (command m)"
  define n where "n = length L + length P"
  define H :: buffer where
    "H = [of_int (mode m), of_int (ttl m), of_int (mode m mod 256), of_int (mode m div 256)]"
  define F where "F = pad 10 (hex_decode (from m) 10)"
  define T where "T = pad 10 (hex_decode (to m) 10)"
  have glp: "getLengthPrefixed (Str (command m)) = Inr L"
    using cm by (simp add: getLengthPrefixed_Str L_def)
  have b0: "alloc (88 + length L + length P) = [0, 0, 0, 0] @ replicate (84 + n) 0"
    using alloc_header [of n] by (simp add: n_def add.assoc)
  have w1: "writeUInt8 ([0, 0, 0, 0] @ replicate (84 + n) 0) (mode m) 0
      = Inr ([of_int (mode m), 0, 0, 0] @ replicate (84 + n) 0)"
    using md by (simp add: writeUInt8_def)
  have w2: "writeUInt8 ([of_int (mode m), 0, 0, 0] @ replicate (84 + n) 0) (ttl m) 1
      = Inr ([of_int (mode m), of_int (ttl m), 0, 0] @ replicate (84 + n) 0)"
    using tl by (simp add: writeUInt8_def)
  have w3: "writeUInt16LE ([of_int (mode m), of_int (ttl m), 0, 0] @ replicate (84 + n) 0) (mode m) 2
      = Inr (H @ replicate (84 + n) 0)"
    using md by (simp add: writeUInt16LE_def H_def numeral_eq_Suc)
  have lenH: "length H = 4" by (simp add: H_def)
  have z1: "replicate (84 + n) (0::byte) = replicate 10 0 @ replicate (74 + n) 0"
    by (simp add: replicate_add [symmetric])
  have w4: "write_hex (H @ replicate (84 + n) 0) (from m) 4 10 = Inr (H @ F @ replicate (74 + n) 0)"
  proof -
    have "copy (hex_decode (from m) 10) (H @ replicate (84 + n) 0) 4
        = H @ pad (84 + n) (hex_decode (from m) 10)"
      by (rule copy_zeros [OF lenH])
    also have "\<dots> = H @ F @ replicate (74 + n) 0"
      using pad_split [OF length_hex_decode, of 10 "84 + n" "from m"] by (simp add: F_def)
    finally show ?thesis by (simp add: write_hex_def lenH)
  qed
  have lenHF: "length (H @ F) = 14" by (simp add: lenH F_def)
  have w5: "(if to m \<noteq> [] then write_hex (H @ F @ replicate (74 + n) 0) (to m) 14 10
             else Inr (H @ F @ replicate (74 + n) 0))
      = Inr (H @ F @ T @ replicate (64 + n) 0)"
  proof (cases "to m = []")
    case True
    have "replicate (74 + n) (0::byte) = replicate 10 0 @ replicate (64 + n) 0"
      by (simp add: replicate_add [symmetric])
    then show ?thesis using True by (simp add: T_def pad_def)
  next
    case False
    have "copy (hex_decode (to m) 10) ((H @ F) @ replicate (74 + n) 0) 14
        = (H @ F) @ pad (74 + n) (hex_decode (to m) 10)"
      by (rule copy_zeros [OF lenHF])
    also have "\<dots> = (H @ F) @ T @ replicate (64 + n) 0"
      using pad_split [OF length_hex_decode, of 10 "74 + n" "to m"] by (simp add: T_def)
    finally show ?thesis using False by (simp add: write_hex_def lenH F_def)
  qed
  have lenHFT: "length (H @ F @ T) = 24" by (simp add: lenH F_def T_def)
  define S where "S = pad (64 + n) (signature m)"
  have c1: "copy (signature m) (H @ F @ T @ replicate (64 + n) 0) 24 = (H @ F @ T) @ S"
    using copy_zeros [OF lenHFT, of "signature m" "64 + n"] by (simp add: S_def)
  have lenS: "length S = 64 + n" by (simp add: S_def)
  have splitS: "S = pad 64 (signature m) @ drop 64 S"
    using append_take_drop_id [of 64 S] by (simp add: S_def take_pad)
  have len88: "length (H @ F @ T @ pad 64 (signature m)) = 88" by (simp add: lenH F_def T_def)
  have c2: "copy L ((H @ F @ T) @ S) 88
      = ((H @ F @ T @ pad 64 (signature m)) @ L) @ drop (length L) (drop 64 S)"
  proof -
    have "copy L ((H @ F @ T @ pad 64 (signature m)) @ drop 64 S) 88
        = (H @ F @ T @ pad 64 (signature m)) @ take (length (drop 64 S)) L @ drop (length L) (drop 64 S)"
      by (rule copy_at [OF len88])
    moreover have "take (length (drop 64 S)) L = L" by (simp add: lenS n_def)
    moreover have "(H @ F @ T) @ S = (H @ F @ T @ pad 64 (signature m)) @ drop 64 S"
      using splitS by simp
    ultimately show ?thesis by simp
  qed
  have len3: "length ((H @ F @ T @ pad 64 (signature m)) @ L) = 88 + length L"
    using len88 by simp
  have c3: "copy P (((H @ F @ T @ pad 64 (signature m)) @ L) @ drop (length L) (drop 64 S)) (88 + length L)
      = ((H @ F @ T @ pad 64 (signature m)) @ L) @ P"
    using copy_at [OF len3, of P "drop (length L) (drop 64 S)"] by (simp add: lenS n_def)
  have "getBuffer m = Inr (((H @ F @ T @ pad 64 (signature m)) @ L) @ P)"
    unfolding getBuffer_def
    using f sg en glp b0 w1 w2 w3 w4 w5 c1 c2 c3
    by (simp add: P_def [symmetric] Let_def del: append_assoc)
  then show ?thesis by (simp add: H_def F_def T_def L_def P_def)
qed

text \<open>Read back as an unsigned 16-bit little-endian number, the bytes at offset 2 are \<open>mode\<close>.\<close>

lemma getBuffer_offset_2:
  assumes "from m \<noteq> []"
    and "\<not> (hasSignFlag m \<and> signature m = [])"
    and "\<not> (hasEncryptFlag m \<and> encrypted m = [])"
    and md: "0 \<le> mode m" "mode m \<le> 255"
    and "0 \<le> ttl m" "ttl m \<le> 255"
    and "length (utf8_encode (command m)) \<le> 255"
  shows "\<exists>buf. getBuffer m = Inr buf \<and> readUInt16LE buf 2 = Inr (mode m)"
proof -
  have lo: "uint (of_int (mode m mod 256) :: byte) = mode m"
    using md by (simp add: uint_byte)
  have hi: "uint (of_int (mode m div 256) :: byte) = 0"
    using md by simp
  show ?thesis
    using getBuffer_layout [OF assms] lo hi by (simp add: readUInt16LE_def)
qed

text \<open>Outside those ranges a write throws.\<close>

lemma getBuffer_range:
  assumes "from m \<noteq> []" "\<not> (hasSignFlag m \<and> signature m = [])"
    "\<not> (hasEncryptFlag m \<and> encrypted m = [])"
    and "mode m < 0 \<or> 255 < mode m \<or> ttl m < 0 \<or> 255 < ttl m
         \<or> 255 < length (utf8_encode (command m))"
  shows "getBuffer m = Inl RangeError"
proof (cases "255 < length (utf8_encode (command m))")
  case True
  then show ?thesis
    using assms(1-3) by (simp add: getBuffer_def getLengthPrefixed_long)
next
  case False
  then have "getLengthPrefixed (Str (command m)) =
      Inr (of_nat (length (utf8_encode (command m))) # utf8_encode (command m))"
    by (simp add: getLengthPrefixed_Str)
  then show ?thesis
    using assms False by (auto simp: getBuffer_def Let_def writeUInt8_def alloc_def)
qed

text \<open>What \<open>fromBuffer\<close> reads from a buffer of that layout.\<close>

lemma fromBuffer_layout:
  assumes F: "length F = 10" and T: "length T = 10" and S: "length S = 64"
    and c: "length c \<le> 255"
  shows "fromBuffer ([a, b, s0, s1] @ F @ T @ S @ (of_nat (length c) # c) @ P) =
    Inr (let message = \<lparr>mode = sint a, seq = uint s0 + 256 * uint s1, from = hex_encode F,
               to = hex_encode T, ttl = uint b, command = toString_utf8 c, payload = [],
               signature = S, encrypted = []\<rparr>;
             payload' = drop (length (toString_utf8 c)) (c @ P)
         in if hasEncryptFlag message then message\<lparr>encrypted := payload'\<rparr>
            else message\<lparr>payload := payload'\<rparr>)"
proof -
  define buf where "buf = [a, b, s0, s1] @ F @ T @ S @ (of_nat (length c) # c) @ P"
  have r1: "readInt8 buf 0 = Inr (sint a)"
    by (simp add: readInt8_def buf_def)
  have r2: "readUInt8 buf 1 = Inr (uint b)"
    by (simp add: readUInt8_def buf_def)
  have r3: "readUInt16LE buf 2 = Inr (uint s0 + 256 * uint s1)"
    by (simp add: readUInt16LE_def buf_def)
  have h1: "toString_hex buf 4 (4 + 10) = hex_encode F"
    using F by (simp add: toString_hex_def slice_buf_def buf_def)
  have h2: "toString_hex buf 14 (14 + 10) = hex_encode T"
    using F T by (simp add: toString_hex_def slice_buf_def buf_def)
  have sg: "slice_buf buf 24 (24 + 64) = S"
    using F T S by (simp add: slice_buf_def buf_def)
  have pre: "buf = ([a, b, s0, s1] @ F @ T @ S) @ (of_nat (length c) # c) @ P"
    by (simp add: buf_def)
  have len88: "length ([a, b, s0, s1] @ F @ T @ S) = 88"
    using F T S by simp
  have d88: "drop 88 buf = (of_nat (length c) # c) @ P"
    unfolding pre using len88 by (simp del: append_assoc append.simps)
  have n88: "buf ! 88 = of_nat (length c)"
    unfolding pre using len88 by (simp add: nth_append del: append_assoc append.simps)
  have lenb: "length buf = 89 + length c + length P"
    using F T S by (simp add: buf_def)
  have ul: "uint (of_nat (length c) :: byte) = int (length c)"
    using c by (simp add: uint_word_of_int take_bit_nat_eq_self unsigned_of_nat)
  have r4: "readUInt8 buf 88 = Inr (int (length c))"
    using lenb n88 ul by (simp add: readUInt8_def)
  have "slice_buf buf (88 + 1) (88 + length c + 1) = take (length c) (drop 89 buf)"
    by (simp add: slice_buf_def drop_take)
  moreover have "drop 89 buf = c @ P"
    using d88 drop_drop [of 1 88 buf] by simp
  ultimately have sl: "slice_buf buf (88 + 1) (88 + length c + 1) = c"
    by simp
  have r5: "readLengthPrefixed buf 88 = Inr c"
    using r4 sl by (simp add: readLengthPrefixed_def)
  have dp: "drop (89 + k) buf = drop k (c @ P)" for k
    using \<open>drop 89 buf = c @ P\<close> drop_drop [of k 89 buf] by (simp add: add.commute)
  show ?thesis
    unfolding buf_def [symmetric] fromBuffer_def
    using r1 r2 r3 h1 h2 sg r5
    by (simp add: dp Let_def Message_def toBuffer_def alloc_def)
qed

subsection \<open>The example values\<close>

lemma alice_units:
  "alice = [48, 48, 49, 49, 50, 50, 51, 51, 52, 52, 53, 53, 54, 54, 55, 55, 56, 56, 57, 57]"
  by (simp add: alice_def js_def)

lemma bob_units:
  "bob = [97, 97, 98, 98, 99, 99, 100, 100, 101, 101, 102, 102, 48, 48, 49, 49, 50, 50, 51, 51]"
  by (simp add: bob_def js_def)

lemma alice_neq_bob: "alice \<noteq> bob"
  by (simp add: alice_units bob_units)

lemma alice_nonempty: "alice \<noteq> []"
  by (simp add: alice_units)

lemma hex_decode_alice:
  "hex_decode alice 10 = [0x00, 0x11, 0x22, 0x33, 0x44, 0x55, 0x66, 0x77, 0x88, 0x99]"
  by (simp add: alice_units hex_decode_step unhex_def)

lemma hex_decode_bob:
  "hex_decode bob 10 = [0xAA, 0xBB, 0xCC, 0xDD, 0xEE, 0xFF, 0x00, 0x11, 0x22, 0x33]"
  by (simp add: bob_units hex_decode_step unhex_def)

lemma hex_encode_alice:
  "hex_encode [0x00, 0x11, 0x22, 0x33, 0x44, 0x55, 0x66, 0x77, 0x88, 0x99] = alice"
  by (simp add: alice_units hex_encode_def hexdigit_values)

lemma replicate_10: "replicate 10 x = [x, x, x, x, x, x, x, x, x, x]"
  by (simp add: numeral_eq_Suc)

lemma hex_encode_zeros: "hex_encode (replicate 10 0) = js ''00000000000000000000''"
  by (simp add: hex_encode_def hexdigit_values js_def replicate_10)

lemma utf8_encode_ping: "utf8_encode (js ''ping'') = [112, 105, 110, 103]"
  by (simp add: js_def lone_unit_def is_high_surrogate_def is_low_surrogate_def utf8_bytes_def)

lemma toString_utf8_ping: "toString_utf8 [112, 105, 110, 103] = js ''ping''"
  by (simp add: js_def toString_utf8_def utf16_units_def)

lemma is_address_alice: "is_address alice"
  by (simp add: alice_units is_address_def lower_hex_digit_def)

lemma is_address_bob: "is_address bob"
  by (simp add: bob_units is_address_def lower_hex_digit_def)

lemma is_ascii_ping: "is_ascii (js ''ping'')"
  by (simp add: js_def is_ascii_def)

lemma example_fields [simp]:
  "mode (example_message md) = md" "ttl (example_message md) = 1" "seq (example_message md) = 1"
  "from (example_message md) = alice" "to (example_message md) = bob"
  "command (example_message md) = js ''ping''" "payload (example_message md) = [1, 2, 3]"
  "signature (example_message md) = []" "encrypted (example_message md) = []"
  by (simp_all add: example_message_def)

lemma example_flags [simp]:
  "hasSignFlag (example_message 0) = False"
  "hasEncryptFlag (example_message 0) = False"
  "hasSignFlag (example_message 1) = False"
  "hasEncryptFlag (example_message 1) = True"
  "hasSignFlag (example_message 2) = True"
  "hasEncryptFlag (example_message 2) = False"
  "hasSignFlag (example_message 3) = True"
  "hasEncryptFlag (example_message 3) = True"
  by (simp_all add: hasSignFlag_def hasEncryptFlag_def MODE_SIGNED_def MODE_ENCRYPTED_def)

lemma flags_update [simp]:
  "hasSignFlag (m\<lparr>signature := s\<rparr>) = hasSignFlag m"
  "hasEncryptFlag (m\<lparr>signature := s\<rparr>) = hasEncryptFlag m"
  "hasEncryptFlag (m\<lparr>encrypted := c\<rparr>) = hasEncryptFlag m"
  "hasEncryptFlag (m\<lparr>payload := p\<rparr>) = hasEncryptFlag m"
  by (simp_all add: hasSignFlag_def hasEncryptFlag_def)

lemma toy_address [simp]: "address (toy_identity a) = a"
  by (simp add: toy_identity_def)

lemma toy_law_sign:
  "\<forall>p. \<exists>s. id_sign (toy_identity a) p = Inr s \<and> id_verify (toy_identity a) p s = Inr True"
  by (simp add: toy_identity_def)

lemma toy_law_encrypt:
  "\<forall>p. \<exists>c. id_encrypt (toy_identity a) p = Inr c \<and> id_decrypt (toy_identity a) c = Inr p"
  by (simp add: toy_identity_def comp_def)

lemma getBuffer_example: "getBuffer (example_message 0) = Inr example_buffer"
proof -
  have "getBuffer (example_message 0) =
    Inr ([of_int (mode (example_message 0)), of_int (ttl (example_message 0)),
          of_int (mode (example_message 0) mod 256), of_int (mode (example_message 0) div 256)]
         @ pad 10 (hex_decode (from (example_message 0)) 10)
         @ pad 10 (hex_decode (to (example_message 0)) 10)
         @ pad 64 (signature (example_message 0))
         @ (of_nat (length (utf8_encode (command (example_message 0))))
            # utf8_encode (command (example_message 0)))
         @ (if hasEncryptFlag (example_message 0) then encrypted (example_message 0)
            else payload (example_message 0)))"
    by (rule getBuffer_layout) (simp_all add: alice_nonempty utf8_encode_ping)
  then show ?thesis
    by (simp add: hex_decode_alice hex_decode_bob utf8_encode_ping pad_def example_buffer_def)
qed

lemma getBuffer_broadcast: "getBuffer broadcast_message = Inr broadcast_buffer"
proof -
  have "getBuffer broadcast_message =
    Inr ([of_int (mode broadcast_message), of_int (ttl broadcast_message),
          of_int (mode broadcast_message mod 256), of_int (mode broadcast_message div 256)]
         @ pad 10 (hex_decode (from broadcast_message) 10)
         @ pad 10 (hex_decode (to broadcast_message) 10)
         @ pad 64 (signature broadcast_message)
         @ (of_nat (length (utf8_encode (command broadcast_message)))
            # utf8_encode (command broadcast_message))
         @ (if hasEncryptFlag broadcast_message then encrypted broadcast_message
            else payload broadcast_message))"
    by (rule getBuffer_layout)
      (simp_all add: broadcast_message_def alice_nonempty utf8_encode_ping hasSignFlag_def
        hasEncryptFlag_def)
  then show ?thesis
    by (simp add: broadcast_message_def hex_decode_alice utf8_encode_ping pad_def
        broadcast_buffer_def hasEncryptFlag_def)
qed

lemma fromBuffer_broadcast: "fromBuffer broadcast_buffer = Inr broadcast_decoded"
proof -
  have "fromBuffer ([0, 1, 0, 0] @ [0x00, 0x11, 0x22, 0x33, 0x44, 0x55, 0x66, 0x77, 0x88, 0x99]
        @ replicate 10 0 @ replicate 64 0
        @ (of_nat (length [112, 105, 110, 103 :: byte]) # [112, 105, 110, 103]) @ [1, 2, 3]) =
    Inr (let message = \<lparr>mode = sint (0 :: byte), seq = uint (0 :: byte) + 256 * uint (0 :: byte),
               from = hex_encode [0x00, 0x11, 0x22, 0x33, 0x44, 0x55, 0x66, 0x77, 0x88, 0x99],
               to = hex_encode (replicate 10 0), ttl = uint (1 :: byte),
               command = toString_utf8 [112, 105, 110, 103], payload = [],
               signature = replicate 64 0, encrypted = []\<rparr>;
             payload' = drop (length (toString_utf8 [112, 105, 110, 103]))
               ([112, 105, 110, 103] @ [1, 2, 3])
         in if hasEncryptFlag message then message\<lparr>encrypted := payload'\<rparr>
            else message\<lparr>payload := payload'\<rparr>)"
    by (rule fromBuffer_layout) simp_all
  then show ?thesis
    by (simp add: broadcast_buffer_def broadcast_decoded_def hex_encode_alice hex_encode_zeros
        toString_utf8_ping Let_def hasEncryptFlag_def js_def)
qed

section \<open>The claims\<close>

subsection \<open>The bytes at offset 2\<close>

text \<open>
  C1 says that the buffer holds \<open>seq\<close>, little-endian, at offset 2. The source writes
  \<open>mode\<close> there. For the example message, whose \<open>seq\<close> is 1 and whose \<open>mode\<close> is 0,
  the two bytes at offset 2 are 0 and 0, and reading them back as an unsigned 16-bit
  little-endian number gives 0, not 1.
\<close>

theorem getBuffer_offset_2_holds_mode:
  "seq (example_message 0) = 1 \<and> mode (example_message 0) = 0 \<and>
   getBuffer (example_message 0) = Inr example_buffer \<and>
   slice_buf example_buffer 2 4 = [0, 0] \<and>
   readUInt16LE example_buffer 2 = Inr 0"
  by (simp add: getBuffer_example) (simp add: example_buffer_def slice_buf_def readUInt16LE_def)

subsection \<open>Round trip\<close>

text \<open>
  C2, as amended: for every message whose \<open>from\<close> and \<open>to\<close> are both twenty lower-case
  hex digits, whose ENCRYPTED and SIGNED flags are unset, whose \<open>mode\<close> is in 0..127 and
  \<open>ttl\<close> in 0..255 and whose command is ASCII of at most 255 characters, \<open>getBuffer\<close>
  returns a buffer and \<open>fromBuffer\<close> of that buffer returns a message with the same
  \<open>mode\<close>, \<open>ttl\<close>, \<open>from\<close>, \<open>to\<close>, \<open>command\<close> and \<open>payload\<close>.
\<close>

theorem roundtrip_plain:
  assumes fa: "is_address (from m)" and ta: "is_address (to m)"
    and ne: "\<not> hasEncryptFlag m" and ns: "\<not> hasSignFlag m"
    and md: "0 \<le> mode m" "mode m < 128"
    and tl: "0 \<le> ttl m" "ttl m \<le> 255"
    and ca: "is_ascii (command m)" and cl: "length (command m) \<le> 255"
  shows "\<exists>buf m'. getBuffer m = Inr buf \<and> fromBuffer buf = Inr m' \<and>
           mode m' = mode m \<and> ttl m' = ttl m \<and> from m' = from m \<and> to m' = to m \<and>
           command m' = command m \<and> payload m' = payload m"
proof -
  define c where "c = utf8_encode (command m)"
  have dc: "toString_utf8 c = command m" and lc: "length c = length (command m)"
    using ascii_roundtrip [OF ca] by (simp_all add: c_def)
  define F where "F = pad 10 (hex_decode (from m) 10)"
  define T where "T = pad 10 (hex_decode (to m) 10)"
  define S where "S = pad 64 (signature m)"
  define buf where "buf = [of_int (mode m), of_int (ttl m), of_int (mode m mod 256),
      of_int (mode m div 256)] @ F @ T @ S @ (of_nat (length c) # c) @ payload m"
  have "from m \<noteq> []" using fa by (auto simp: is_address_def)
  then have g: "getBuffer m = Inr buf"
    using getBuffer_layout [of m] ne ns md tl cl lc
    by (simp add: buf_def F_def T_def S_def c_def)
  define msg where "msg = \<lparr>mode = sint (of_int (mode m) :: byte),
      seq = uint (of_int (mode m mod 256) :: byte) + 256 * uint (of_int (mode m div 256) :: byte),
      from = hex_encode F, to = hex_encode T, ttl = uint (of_int (ttl m) :: byte),
      command = toString_utf8 c, payload = [], signature = S, encrypted = []\<rparr>"
  have mm: "mode msg = mode m" using md by (simp add: msg_def sint_byte)
  then have flag: "\<not> hasEncryptFlag msg" using ne by (simp add: hasEncryptFlag_def)
  have "fromBuffer buf = Inr (let message = msg; payload' = drop (length (toString_utf8 c)) (c @ payload m)
         in if hasEncryptFlag message then message\<lparr>encrypted := payload'\<rparr>
            else message\<lparr>payload := payload'\<rparr>)"
    unfolding buf_def msg_def
    by (rule fromBuffer_layout) (simp_all add: F_def T_def S_def lc cl)
  then have f: "fromBuffer buf = Inr (msg\<lparr>payload := payload m\<rparr>)"
    using flag by (simp add: Let_def dc lc [symmetric])
  have "mode (msg\<lparr>payload := payload m\<rparr>) = mode m" using mm by simp
  moreover have "ttl (msg\<lparr>payload := payload m\<rparr>) = ttl m"
    using tl by (simp add: msg_def uint_byte)
  moreover have "from (msg\<lparr>payload := payload m\<rparr>) = from m"
    using is_address_roundtrip [OF fa] by (simp add: msg_def F_def)
  moreover have "to (msg\<lparr>payload := payload m\<rparr>) = to m"
    using is_address_roundtrip [OF ta] by (simp add: msg_def T_def)
  moreover have "command (msg\<lparr>payload := payload m\<rparr>) = command m"
    by (simp add: msg_def dc)
  moreover have "payload (msg\<lparr>payload := payload m\<rparr>) = payload m"
    by simp
  ultimately show ?thesis using g f by blast
qed

theorem roundtrip_plain_witness:
  "is_address (from (example_message 0)) \<and> is_address (to (example_message 0)) \<and>
   \<not> hasEncryptFlag (example_message 0) \<and> \<not> hasSignFlag (example_message 0) \<and>
   0 \<le> mode (example_message 0) \<and> mode (example_message 0) < 128 \<and>
   0 \<le> ttl (example_message 0) \<and> ttl (example_message 0) \<le> 255 \<and>
   is_ascii (command (example_message 0)) \<and> length (command (example_message 0)) \<le> 255 \<and>
   (\<exists>buf m'. getBuffer (example_message 0) = Inr buf \<and> fromBuffer buf = Inr m' \<and>
      mode m' = mode (example_message 0) \<and> ttl m' = ttl (example_message 0) \<and>
      from m' = from (example_message 0) \<and> to m' = to (example_message 0) \<and>
      command m' = command (example_message 0) \<and> payload m' = payload (example_message 0))"
proof -
  have 1: "is_address (from (example_message 0))" by (simp add: is_address_alice)
  have 2: "is_address (to (example_message 0))" by (simp add: is_address_bob)
  have 3: "\<not> hasEncryptFlag (example_message 0)" "\<not> hasSignFlag (example_message 0)" by simp_all
  have 4: "0 \<le> mode (example_message 0)" "mode (example_message 0) < 128"
    "0 \<le> ttl (example_message 0)" "ttl (example_message 0) \<le> 255" by simp_all
  have 5: "is_ascii (command (example_message 0))" by (simp add: is_ascii_ping)
  have 6: "length (command (example_message 0)) \<le> 255" by (simp add: js_def)
  show ?thesis
    using 1 2 3 4 5 6 roundtrip_plain [OF 1 2 3 4 5 6] by blast
qed

text \<open>
  The claim as stated fails for a message without a recipient, which has a non-empty
  \<open>from\<close> and both flags unset: \<open>getBuffer\<close> leaves the \<open>to\<close> field zero, and
  \<open>fromBuffer\<close> reads twenty zero digits, not the empty string.
\<close>

theorem roundtrip_empty_to_counterexample:
  "from broadcast_message \<noteq> [] \<and> \<not> hasEncryptFlag broadcast_message \<and>
   \<not> hasSignFlag broadcast_message \<and>
   getBuffer broadcast_message = Inr broadcast_buffer \<and>
   fromBuffer broadcast_buffer = Inr broadcast_decoded \<and>
   to broadcast_message = [] \<and>
   to broadcast_decoded = js ''00000000000000000000'' \<and>
   to broadcast_decoded \<noteq> to broadcast_message"
  by (simp add: getBuffer_broadcast fromBuffer_broadcast)
    (simp add: broadcast_message_def broadcast_decoded_def alice_nonempty hasEncryptFlag_def
      hasSignFlag_def js_def)

text \<open>
  Two more inputs where the decoded message differs, both left out of the amended
  statement. With a command that is not ASCII, \<open>fromBuffer\<close> advances by the number of
  UTF-16 code units of the decoded command, not by the number of its bytes, and the
  payload starts too early: for the command U+00E9 the second byte of its encoding
  becomes the first byte of the payload. With \<open>mode\<close> 128 the byte written by
  \<open>writeUInt8\<close> is read back by \<open>readInt8\<close> as -128.
\<close>

lemma fromBuffer_counts_code_units:
  "fromBuffer ([0, 1, 0, 0] @ replicate 10 0 @ replicate 10 0 @ replicate 64 0
      @ (of_nat (length (utf8_encode [0xE9])) # utf8_encode [0xE9]) @ [1, 2, 3]) =
   Inr \<lparr>mode = 0, seq = 0, from = js ''00000000000000000000'', to = js ''00000000000000000000'',
        ttl = 1, command = [0xE9], payload = [0xA9, 1, 2, 3], signature = replicate 64 0,
        encrypted = []\<rparr>"
proof -
  have e: "utf8_encode [0xE9] = [0xC3, 0xA9]"
    by (simp add: lone_unit_def is_high_surrogate_def is_low_surrogate_def utf8_bytes_def)
  have d: "toString_utf8 [0xC3, 0xA9] = [0xE9]"
    by (simp add: toString_utf8_def utf16_units_def)
  have "fromBuffer ([0, 1, 0, 0] @ replicate 10 0 @ replicate 10 0 @ replicate 64 0
        @ (of_nat (length [0xC3, 0xA9 :: byte]) # [0xC3, 0xA9]) @ [1, 2, 3]) =
    Inr (let message = \<lparr>mode = sint (0 :: byte), seq = uint (0 :: byte) + 256 * uint (0 :: byte),
               from = hex_encode (replicate 10 0), to = hex_encode (replicate 10 0),
               ttl = uint (1 :: byte), command = toString_utf8 [0xC3, 0xA9], payload = [],
               signature = replicate 64 0, encrypted = []\<rparr>;
             payload' = drop (length (toString_utf8 [0xC3, 0xA9])) ([0xC3, 0xA9] @ [1, 2, 3])
         in if hasEncryptFlag message then message\<lparr>encrypted := payload'\<rparr>
            else message\<lparr>payload := payload'\<rparr>)"
    by (rule fromBuffer_layout) simp_all
  then show ?thesis
    unfolding e by (simp add: d hex_encode_zeros Let_def hasEncryptFlag_def)
qed

lemma mode_128_read_back: "readInt8 [of_int 128] 0 = Inr (- 128)"
  by (simp add: readInt8_def)

subsection \<open>Sign and verify\<close>

text \<open>
  C3: for a message with SIGNED set and an identity whose address is the message's
  \<open>from\<close>, if for every \<open>p\<close> the identity signs \<open>p\<close> and verifies that signature of
  \<open>p\<close>, then \<open>sign\<close> returns and \<open>verify\<close> of the signed message returns (neither
  throws), and the signature that \<open>sign\<close> stores is the identity's signature of the
  active payload: \<open>encrypted\<close> when ENCRYPTED is set, \<open>payload\<close> otherwise.
\<close>

theorem sign_then_verify:
  assumes "hasSignFlag m" and "address i = from m"
    and "\<forall>p. \<exists>s. id_sign i p = Inr s \<and> id_verify i p s = Inr True"
  shows "\<exists>m'. sign m (Some i) = Inr m' \<and> verify m' (Some i) = Inr m' \<and>
           id_sign i (if hasEncryptFlag m then encrypted m else payload m) = Inr (signature m')"
proof -
  let ?p = "if hasEncryptFlag m then encrypted m else payload m"
  from assms(3) obtain s where s: "id_sign i ?p = Inr s" "id_verify i ?p s = Inr True"
    by blast
  let ?m' = "m\<lparr>signature := s\<rparr>"
  have 1: "sign m (Some i) = Inr ?m'"
    using assms(1,2) s(1) by (simp add: sign_def assert_identity_def)
  have 2: "verify ?m' (Some i) = Inr ?m'"
    using assms(1,2) s(2)
    by (cases "hasEncryptFlag m") (simp_all add: verify_def assert_identity_def)
  show ?thesis using 1 2 s(1) by auto
qed

theorem sign_then_verify_witness:
  "hasSignFlag (example_message 2) \<and>
   address (toy_identity alice) = from (example_message 2) \<and>
   (\<forall>p. \<exists>s. id_sign (toy_identity alice) p = Inr s \<and> id_verify (toy_identity alice) p s = Inr True) \<and>
   (\<exists>m'. sign (example_message 2) (Some (toy_identity alice)) = Inr m' \<and>
      verify m' (Some (toy_identity alice)) = Inr m' \<and>
      id_sign (toy_identity alice)
        (if hasEncryptFlag (example_message 2) then encrypted (example_message 2)
         else payload (example_message 2)) = Inr (signature m'))"
proof -
  have 1: "hasSignFlag (example_message 2)" by simp
  have 2: "address (toy_identity alice) = from (example_message 2)" by simp
  show ?thesis
    using 1 2 toy_law_sign [of alice] sign_then_verify [OF 1 2 toy_law_sign] by blast
qed

subsection \<open>Encrypt and decrypt\<close>

text \<open>
  C4: for a message with ENCRYPTED set: with an identity whose address is the message's
  \<open>to\<close> and which decrypts what it encrypts, \<open>encrypt\<close> then \<open>decrypt\<close> both return
  and leave \<open>payload\<close> as it was; with an identity whose address differs from \<open>to\<close>,
  \<open>encrypt\<close> and \<open>decrypt\<close> each throw the assertion error of an invalid identity.
\<close>

theorem encrypt_then_decrypt:
  assumes "hasEncryptFlag m"
  shows "(address i = to m \<and> (\<forall>p. \<exists>c. id_encrypt i p = Inr c \<and> id_decrypt i c = Inr p) \<longrightarrow>
           (\<exists>m' m''. encrypt m (Some i) = Inr m' \<and> decrypt m' (Some i) = Inr m'' \<and>
              payload m'' = payload m)) \<and>
         (address j \<noteq> to m \<longrightarrow>
            encrypt m (Some j) = Inl (AssertionError ''Invalid identity to encrypt with'') \<and>
            decrypt m (Some j) = Inl (AssertionError ''Invalid identity to decrypt with''))"
proof (intro conjI impI)
  assume h: "address i = to m \<and> (\<forall>p. \<exists>c. id_encrypt i p = Inr c \<and> id_decrypt i c = Inr p)"
  then obtain c where c: "id_encrypt i (payload m) = Inr c" "id_decrypt i c = Inr (payload m)"
    by blast
  let ?m' = "m\<lparr>encrypted := c\<rparr>"
  have 1: "encrypt m (Some i) = Inr ?m'"
    using assms h c(1) by (simp add: encrypt_def assert_identity_def)
  have 2: "decrypt ?m' (Some i) = Inr (?m'\<lparr>payload := payload m\<rparr>)"
    using assms h c(2) by (simp add: decrypt_def assert_identity_def)
  show "\<exists>m' m''. encrypt m (Some i) = Inr m' \<and> decrypt m' (Some i) = Inr m'' \<and> payload m'' = payload m"
    using 1 2 by auto
next
  assume "address j \<noteq> to m"
  then show "encrypt m (Some j) = Inl (AssertionError ''Invalid identity to encrypt with'')"
    using assms by (simp add: encrypt_def assert_identity_def)
next
  assume "address j \<noteq> to m"
  then show "decrypt m (Some j) = Inl (AssertionError ''Invalid identity to decrypt with'')"
    using assms by (simp add: decrypt_def assert_identity_def)
qed

theorem encrypt_then_decrypt_witness:
  "hasEncryptFlag (example_message 3) \<and>
   address (toy_identity bob) = to (example_message 3) \<and>
   (\<forall>p. \<exists>c. id_encrypt (toy_identity bob) p = Inr c \<and> id_decrypt (toy_identity bob) c = Inr p) \<and>
   address (toy_identity alice) \<noteq> to (example_message 3) \<and>
   (\<exists>m' m''. encrypt (example_message 3) (Some (toy_identity bob)) = Inr m' \<and>
      decrypt m' (Some (toy_identity bob)) = Inr m'' \<and> payload m'' = payload (example_message 3)) \<and>
   encrypt (example_message 3) (Some (toy_identity alice)) =
     Inl (AssertionError ''Invalid identity to encrypt with'') \<and>
   decrypt (example_message 3) (Some (toy_identity alice)) =
     Inl (AssertionError ''Invalid identity to decrypt with'')"
proof -
  have 1: "hasEncryptFlag (example_message 3)" by simp
  have 2: "address (toy_identity bob) = to (example_message 3)" by simp
  have 3: "address (toy_identity alice) \<noteq> to (example_message 3)"
    using alice_neq_bob by simp
  show ?thesis
    using 1 2 3 toy_law_encrypt [of bob]
      encrypt_then_decrypt [OF 1, of "toy_identity bob" "toy_identity alice"]
    by blast
qed

subsection \<open>Mode-gated operations\<close>

text \<open>
  C5: on a message whose SIGNED flag is unset, sign and verify return the message as it
  was, without throwing, for any identity argument (an absent one and one with a
  foreign address included); on a message whose ENCRYPTED flag is unset, so do encrypt
  and decrypt.
\<close>

theorem mode_gated_noop:
  "(\<not> hasSignFlag m \<longrightarrow> sign m i = Inr m \<and> verify m i = Inr m) \<and>
   (\<not> hasEncryptFlag m \<longrightarrow> encrypt m j = Inr m \<and> decrypt m j = Inr m)"
  by (simp add: sign_def verify_def encrypt_def decrypt_def)

theorem mode_gated_noop_witness:
  "\<not> hasSignFlag (example_message 0) \<and> \<not> hasEncryptFlag (example_message 0) \<and>
   address (toy_identity bob) \<noteq> from (example_message 0) \<and>
   sign (example_message 0) (Some (toy_identity bob)) = Inr (example_message 0) \<and>
   verify (example_message 0) (Some (toy_identity bob)) = Inr (example_message 0) \<and>
   encrypt (example_message 0) None = Inr (example_message 0) \<and>
   decrypt (example_message 0) None = Inr (example_message 0)"
  using mode_gated_noop [of "example_message 0" "Some (toy_identity bob)" None] alice_neq_bob
  by simp

subsection \<open>The preconditions of getBuffer\<close>

text \<open>
  C6, as amended: \<open>getBuffer\<close> throws the unset-from assertion error when \<open>from\<close> is
  empty; with \<open>from\<close> non-empty, the invalid-signature error when SIGNED is set and
  \<open>signature\<close> is empty; with \<open>from\<close> non-empty and the signature check passed, the
  invalid-encrypted error when ENCRYPTED is set and \<open>encrypted\<close> is empty. When all three
  checks pass and \<open>mode\<close> and \<open>ttl\<close> are in 0..255 and the command has at most 255 UTF-8
  bytes, it returns a buffer of length 88 + 1 + the byte length of the command + the
  length of the active payload. \<open>getBuffer\<close> assigns no field, so the message is the
  same after each of these outcomes.
\<close>

theorem getBuffer_preconditions:
  "(from m = [] \<longrightarrow> getBuffer m = Inl (AssertionError ''Unset from'')) \<and>
   (from m \<noteq> [] \<and> hasSignFlag m \<and> signature m = [] \<longrightarrow>
      getBuffer m = Inl (Error ''Invalid signature'')) \<and>
   (from m \<noteq> [] \<and> \<not> (hasSignFlag m \<and> signature m = []) \<and> hasEncryptFlag m \<and> encrypted m = [] \<longrightarrow>
      getBuffer m = Inl (Error ''Invalid encrypted'')) \<and>
   (from m \<noteq> [] \<and> \<not> (hasSignFlag m \<and> signature m = []) \<and>
    \<not> (hasEncryptFlag m \<and> encrypted m = []) \<and>
    0 \<le> mode m \<and> mode m \<le> 255 \<and> 0 \<le> ttl m \<and> ttl m \<le> 255 \<and>
    length (utf8_encode (command m)) \<le> 255 \<longrightarrow>
      (\<exists>buf. getBuffer m = Inr buf \<and>
         length buf = 88 + 1 + length (utf8_encode (command m))
                      + length (if hasEncryptFlag m then encrypted m else payload m)))"
proof (intro conjI impI)
  assume "from m = []"
  then show "getBuffer m = Inl (AssertionError ''Unset from'')"
    by (simp add: getBuffer_def)
next
  assume "from m \<noteq> [] \<and> hasSignFlag m \<and> signature m = []"
  then show "getBuffer m = Inl (Error ''Invalid signature'')"
    by (simp add: getBuffer_def)
next
  assume "from m \<noteq> [] \<and> \<not> (hasSignFlag m \<and> signature m = []) \<and> hasEncryptFlag m \<and> encrypted m = []"
  then show "getBuffer m = Inl (Error ''Invalid encrypted'')"
    by (auto simp: getBuffer_def)
next
  assume a: "from m \<noteq> [] \<and> \<not> (hasSignFlag m \<and> signature m = []) \<and>
    \<not> (hasEncryptFlag m \<and> encrypted m = []) \<and>
    0 \<le> mode m \<and> mode m \<le> 255 \<and> 0 \<le> ttl m \<and> ttl m \<le> 255 \<and>
    length (utf8_encode (command m)) \<le> 255"
  then have "getBuffer m =
    Inr ([of_int (mode m), of_int (ttl m), of_int (mode m mod 256), of_int (mode m div 256)]
         @ pad 10 (hex_decode (from m) 10)
         @ pad 10 (hex_decode (to m) 10)
         @ pad 64 (signature m)
         @ (of_nat (length (utf8_encode (command m))) # utf8_encode (command m))
         @ (if hasEncryptFlag m then encrypted m else payload m))"
    by (intro getBuffer_layout) simp_all
  then show "\<exists>buf. getBuffer m = Inr buf \<and>
         length buf = 88 + 1 + length (utf8_encode (command m))
                      + length (if hasEncryptFlag m then encrypted m else payload m)"
    by simp
qed

theorem getBuffer_preconditions_witness:
  "getBuffer ((example_message 0)\<lparr>from := []\<rparr>) = Inl (AssertionError ''Unset from'') \<and>
   getBuffer (example_message 2) = Inl (Error ''Invalid signature'') \<and>
   getBuffer (example_message 1) = Inl (Error ''Invalid encrypted'') \<and>
   (\<exists>buf. getBuffer (example_message 0) = Inr buf \<and> length buf = 88 + 1 + 4 + 3)"
proof -
  have 1: "getBuffer ((example_message 0)\<lparr>from := []\<rparr>) = Inl (AssertionError ''Unset from'')"
    using getBuffer_preconditions [of "(example_message 0)\<lparr>from := []\<rparr>"] by simp
  have 2: "getBuffer (example_message 2) = Inl (Error ''Invalid signature'')"
    using getBuffer_preconditions [of "example_message 2"] by (simp add: alice_nonempty)
  have 3: "getBuffer (example_message 1) = Inl (Error ''Invalid encrypted'')"
    using getBuffer_preconditions [of "example_message 1"] by (simp add: alice_nonempty)
  have 4: "\<exists>buf. getBuffer (example_message 0) = Inr buf \<and> length buf = 88 + 1 + 4 + 3"
    using getBuffer_preconditions [of "example_message 0"]
    by (simp add: alice_nonempty utf8_encode_ping)
  show ?thesis using 1 2 3 4 by blast
qed

text \<open>
  The claim as stated promises the invalid-encrypted error whenever \<open>from\<close> is non-empty,
  ENCRYPTED is set and \<open>encrypted\<close> is empty. A message of the default mode (both flags)
  with neither a signature nor a ciphertext is such a message, and \<open>getBuffer\<close> throws
  the invalid-signature error for it: the signature check comes first.
\<close>

theorem getBuffer_check_order_counterexample:
  "from (example_message 3) \<noteq> [] \<and> hasEncryptFlag (example_message 3) \<and>
   encrypted (example_message 3) = [] \<and>
   getBuffer (example_message 3) = Inl (Error ''Invalid signature'') \<and>
   getBuffer (example_message 3) \<noteq> Inl (Error ''Invalid encrypted'')"
  by (simp add: getBuffer_def alice_nonempty)

subsection \<open>Clone\<close>

lemma toBuffer_in_Buf: "toBuffer_in st (Some (Buf r)) = (r, st)"
  by (simp add: toBuffer_in_def)

text \<open>
  C7, as amended: \<open>clone\<close> returns a message object whose every field is the field of
  the original, the three Buffer fields being references to the same Buffer objects,
  and allocates nothing. The copy is shallow: a byte written into the clone's payload
  Buffer is written into the payload of the original.
\<close>

theorem clone_shares:
  "clone st m = (m, st) \<and>
   contents (snd (clone st m)) (fst (clone st m)) = contents st m \<and>
   (payload m < length st \<and> store_writeUInt8 st (payload (fst (clone st m))) v i = Inr st' \<longrightarrow>
      payload (contents st' m) = (payload (contents st m))[i := of_int v])"
  by (auto simp: clone_def Message_in_def options_of_def toBuffer_in_Buf store_writeUInt8_def
      contents_def writeUInt8_def split: if_splits)

theorem clone_shares_witness:
  "payload example_object < length example_store \<and>
   store_writeUInt8 example_store (payload (fst (clone example_store example_object))) 9 0 =
     Inr [[9, 2, 3], [], []] \<and>
   payload (contents [[9, 2, 3], [], []] example_object) =
     (payload (contents example_store example_object))[0 := of_int 9]"
proof -
  have 1: "payload example_object < length example_store"
    by (simp add: example_object_def example_store_def)
  have 2: "store_writeUInt8 example_store (payload (fst (clone example_store example_object))) 9 0 =
     Inr [[9, 2, 3], [], []]"
    by (simp add: clone_def Message_in_def options_of_def toBuffer_in_Buf store_writeUInt8_def
      writeUInt8_def example_store_def example_object_def)
  show ?thesis
    using 1 2 clone_shares [of example_store example_object 9 0 "[[9, 2, 3], [], []]"]
    by blast
qed

text \<open>
  The claim as stated calls the copy deep. For the example object, whose payload Buffer
  holds 1, 2, 3: after cloning, writing 9 at index 0 of the clone's payload Buffer
  leaves the original's payload as 9, 2, 3.
\<close>

theorem clone_not_deep_counterexample:
  "payload (contents example_store example_object) = [1, 2, 3] \<and>
   clone example_store example_object = (example_object, example_store) \<and>
   store_writeUInt8 example_store (payload example_object) 9 0 = Inr [[9, 2, 3], [], []] \<and>
   payload (contents [[9, 2, 3], [], []] example_object) = [9, 2, 3]"
  by (simp add: clone_def Message_in_def options_of_def toBuffer_in_Buf store_writeUInt8_def
      contents_def writeUInt8_def example_store_def example_object_def)

subsection \<open>Peer construction\<close>

text \<open>
  C8, as amended: the Peer constructor throws a TypeError when it is called without an
  argument object, and whatever the Identity constructor throws for the public key.
  Once the Identity constructor has returned the identity: when the supplied address
  differs from the identity's address, the constructor throws the mismatch error; when
  the addresses agree and \<open>new Date(timestamp)\<close> throws (the timestamp is a BigInt, a
  Symbol or an object whose conversion throws), the constructor throws that error;
  when the addresses agree and \<open>new Date(timestamp)\<close> returns, construction succeeds
  and the peer is that identity with \<open>networkId\<close> and \<open>urls\<close> taken from the
  arguments and \<open>timestamp\<close> the Date of the argument. These are all the outcomes.
\<close>

theorem Peer_construction:
  "Peer Identity None = Inl TypeError \<and>
   (Identity (arg_pubKey args) = Inl e \<longrightarrow> Peer Identity (Some args) = Inl e) \<and>
   (Identity (arg_pubKey args) = Inr this \<and> arg_address args \<noteq> address this \<longrightarrow>
      Peer Identity (Some args) = Inl (Error ''Mismatch address'')) \<and>
   (Identity (arg_pubKey args) = Inr this \<and> arg_address args = address this \<and>
    new_Date (arg_timestamp args) = Inl e' \<longrightarrow>
      Peer Identity (Some args) = Inl e') \<and>
   (Identity (arg_pubKey args) = Inr this \<and> arg_address args = address this \<and>
    new_Date (arg_timestamp args) = Inr d \<longrightarrow>
      (\<exists>p. Peer Identity (Some args) = Inr p \<and> identity.truncate p = this \<and>
         networkId p = arg_networkId args \<and> urls p = arg_urls args \<and> timestamp p = d))"
proof (intro conjI impI)
  show "Peer Identity None = Inl TypeError"
    by (simp add: Peer_def)
next
  assume "Identity (arg_pubKey args) = Inl e"
  then show "Peer Identity (Some args) = Inl e"
    by (simp add: Peer_def)
next
  assume "Identity (arg_pubKey args) = Inr this \<and> arg_address args \<noteq> address this"
  then show "Peer Identity (Some args) = Inl (Error ''Mismatch address'')"
    by (simp add: Peer_def)
next
  assume "Identity (arg_pubKey args) = Inr this \<and> arg_address args = address this \<and>
    new_Date (arg_timestamp args) = Inl e'"
  then show "Peer Identity (Some args) = Inl e'"
    by (simp add: Peer_def)
next
  assume "Identity (arg_pubKey args) = Inr this \<and> arg_address args = address this \<and>
    new_Date (arg_timestamp args) = Inr d"
  then show "\<exists>p. Peer Identity (Some args) = Inr p \<and> identity.truncate p = this \<and>
         networkId p = arg_networkId args \<and> urls p = arg_urls args \<and> timestamp p = d"
    by (cases this) (simp add: Peer_def identity.extend_def identity.truncate_def peer.fields_def)
qed

lemma toy_Identity_ab: "toy_Identity (js ''ab'') = Inr (toy_identity (js ''ba''))"
  by (simp add: toy_Identity_def js_def)

theorem Peer_construction_witness:
  "Peer toy_Identity (None :: (nat, jsstring, nat) peer_args option) = Inl TypeError \<and>
   toy_Identity (arg_pubKey keyless_args) = Inl (Thrown ''Invalid key'') \<and>
   Peer toy_Identity (Some keyless_args) = Inl (Thrown ''Invalid key'') \<and>
   toy_Identity (arg_pubKey bad_args) = Inr (toy_identity (js ''ba'')) \<and>
   arg_address bad_args \<noteq> address (toy_identity (js ''ba'')) \<and>
   Peer toy_Identity (Some bad_args) = Inl (Error ''Mismatch address'') \<and>
   toy_Identity (arg_pubKey symbol_args) = Inr (toy_identity (js ''ba'')) \<and>
   arg_address symbol_args = address (toy_identity (js ''ba'')) \<and>
   new_Date (arg_timestamp symbol_args) = Inl TypeError \<and>
   Peer toy_Identity (Some symbol_args) = Inl TypeError \<and>
   toy_Identity (arg_pubKey good_args) = Inr (toy_identity (js ''ba'')) \<and>
   arg_address good_args = address (toy_identity (js ''ba'')) \<and>
   new_Date (arg_timestamp good_args) = Inr (Date 0) \<and>
   (\<exists>p. Peer toy_Identity (Some good_args) = Inr p \<and> networkId p = 7 \<and>
      urls p = [js ''tcp:1.2.3.4:9''] \<and> timestamp p = Date 0)"
proof -
  let ?i = "toy_identity (js ''ba'')"
  have k: "toy_Identity (arg_pubKey keyless_args) = Inl (Thrown ''Invalid key'')"
    by (simp add: toy_Identity_def keyless_args_def)
  have b: "toy_Identity (arg_pubKey bad_args) = Inr ?i" "arg_address bad_args \<noteq> address ?i"
    by (simp_all add: toy_Identity_def bad_args_def js_def)
  have y: "toy_Identity (arg_pubKey symbol_args) = Inr ?i" "arg_address symbol_args = address ?i"
    "new_Date (arg_timestamp symbol_args) = Inl TypeError"
    by (simp_all add: toy_Identity_ab symbol_args_def new_Date_def)
  have g: "toy_Identity (arg_pubKey good_args) = Inr ?i" "arg_address good_args = address ?i"
    "new_Date (arg_timestamp good_args) = Inr (Date 0)"
    by (simp_all add: toy_Identity_ab good_args_def new_Date_def)
  have 0: "Peer toy_Identity (None :: (nat, jsstring, nat) peer_args option) = Inl TypeError"
    using Peer_construction [of toy_Identity good_args] by blast
  have 1: "Peer toy_Identity (Some keyless_args) = Inl (Thrown ''Invalid key'')"
    using Peer_construction [of toy_Identity keyless_args "Thrown ''Invalid key''"] k by blast
  have 2: "Peer toy_Identity (Some bad_args) = Inl (Error ''Mismatch address'')"
    using Peer_construction [of toy_Identity bad_args _ ?i] b by blast
  have 3: "Peer toy_Identity (Some symbol_args) = Inl TypeError"
    using Peer_construction [of toy_Identity symbol_args _ ?i TypeError] y by blast
  from Peer_construction [of toy_Identity good_args _ ?i _ "Date 0"] g
  obtain p where p: "Peer toy_Identity (Some good_args) = Inr p"
    "networkId p = arg_networkId good_args" "urls p = arg_urls good_args" "timestamp p = Date 0"
    by blast
  from p have 4: "\<exists>p. Peer toy_Identity (Some good_args) = Inr p \<and> networkId p = 7 \<and>
      urls p = [js ''tcp:1.2.3.4:9''] \<and> timestamp p = Date 0"
    by (simp add: good_args_def)
  show ?thesis using 0 k 1 b 2 y 3 g 4 by blast
qed

text \<open>
  The claim as stated lets construction succeed whenever the addresses agree, and
  knows no failure but the mismatch. With a Symbol as timestamp the addresses agree and
  the constructor throws the TypeError of \<open>new Date\<close>.
\<close>

theorem Peer_timestamp_counterexample:
  "toy_Identity (arg_pubKey symbol_args) = Inr (toy_identity (js ''ba'')) \<and>
   arg_address symbol_args = address (toy_identity (js ''ba'')) \<and>
   Peer toy_Identity (Some symbol_args) = Inl TypeError \<and>
   Peer toy_Identity (Some symbol_args) \<noteq> Inl (Error ''Mismatch address'')"
  by (simp add: Peer_def symbol_args_def toy_Identity_def new_Date_def js_def)

subsection \<open>Eligible URLs\<close>

lemma find_not_None: "(find P xs \<noteq> None) = (\<exists>x\<in>set xs. P x)"
  by (induction xs) auto

lemma startsWith_prefix: "startsWith s p = prefix p s"
  by (auto simp: startsWith_def prefix_def take_is_prefix) (metis append_eq_conv_conj)

lemma getEligibleUrls_eq:
  "getEligibleUrls p n =
     filter (\<lambda>url. \<exists>d\<in>set (dialers n). prefix (proto d @ js '':'') url) (urls p)"
  unfolding getEligibleUrls_def find_not_None startsWith_prefix ..

text \<open>
  C9: \<open>getEligibleUrls\<close> returns exactly the elements of the peer's \<open>urls\<close> that start
  with the \<open>proto\<close> of some dialer of the node followed by a colon, in the order of
  \<open>urls\<close>, and the empty list when no URL starts so. (It is a function of the peer and
  the node alone and returns only the list: the source assigns nothing.)
\<close>

theorem getEligibleUrls_filter:
  "getEligibleUrls p n =
     filter (\<lambda>url. \<exists>d\<in>set (dialers n). prefix (proto d @ js '':'') url) (urls p) \<and>
   subseq (getEligibleUrls p n) (urls p) \<and>
   ((\<forall>url\<in>set (urls p). \<forall>d\<in>set (dialers n). \<not> prefix (proto d @ js '':'') url) \<longrightarrow>
      getEligibleUrls p n = [])"
  by (simp add: getEligibleUrls_eq filter_empty_conv)

lemma tcp_example: "getEligibleUrls tcp_peer tcp_node = [js ''tcp:1.2.3.4:9'']"
  by (simp add: getEligibleUrls_def tcp_peer_def tcp_node_def startsWith_def js_def
    identity.extend_def peer.fields_def)

theorem getEligibleUrls_filter_witness:
  "getEligibleUrls tcp_peer tcp_node = [js ''tcp:1.2.3.4:9''] \<and>
   subseq (getEligibleUrls tcp_peer tcp_node) (urls tcp_peer) \<and>
   getEligibleUrls (tcp_peer\<lparr>urls := [js ''ws:host/path'']\<rparr>) tcp_node = []"
proof -
  have "\<forall>url\<in>set (urls (tcp_peer\<lparr>urls := [js ''ws:host/path'']\<rparr>)).
          \<forall>d\<in>set (dialers tcp_node). \<not> prefix (proto d @ js '':'') url"
    by (simp add: tcp_node_def js_def)
  with getEligibleUrls_filter [of "tcp_peer\<lparr>urls := [js ''ws:host/path'']\<rparr>" tcp_node]
  have "getEligibleUrls (tcp_peer\<lparr>urls := [js ''ws:host/path'']\<rparr>) tcp_node = []" by blast
  with getEligibleUrls_filter [of tcp_peer tcp_node] tcp_example show ?thesis by simp
qed

subsection \<open>What sign, verify, encrypt and decrypt leave alone\<close>

lemma sign_result:
  "sign m i = Inr m' \<Longrightarrow> m' = m \<or> (\<exists>s. m' = m\<lparr>signature := s\<rparr>)"
  by (auto simp: sign_def Let_def split: if_splits sum.splits)

lemma verify_result: "verify m i = Inr m' \<Longrightarrow> m' = m"
  unfolding verify_def Let_def
  by (simp split: if_splits sum.splits)

lemma encrypt_result:
  "encrypt m i = Inr m' \<Longrightarrow> m' = m \<or> (\<exists>c. m' = m\<lparr>encrypted := c\<rparr>)"
  by (auto simp: encrypt_def split: if_splits sum.splits)

lemma decrypt_result:
  "decrypt m i = Inr m' \<Longrightarrow> m' = m \<or> (\<exists>p. m' = m\<lparr>payload := p\<rparr>)"
  by (auto simp: decrypt_def split: if_splits sum.splits)

text \<open>
  C10: whenever one of the four operations returns, \<open>mode\<close>, \<open>ttl\<close>, \<open>seq\<close>, \<open>from\<close>,
  \<open>to\<close> and \<open>command\<close> are as before; after \<open>sign\<close> so are \<open>payload\<close> and
  \<open>encrypted\<close> (only \<open>signature\<close> may differ); after \<open>verify\<close> the whole message is
  as before; after \<open>encrypt\<close> so are \<open>payload\<close> and \<open>signature\<close> (only \<open>encrypted\<close>
  may differ); after \<open>decrypt\<close> so are \<open>encrypted\<close> and \<open>signature\<close> (only \<open>payload\<close>
  may differ).
\<close>

theorem crypto_frame:
  "(sign m i = Inr m' \<longrightarrow>
      mode m' = mode m \<and> ttl m' = ttl m \<and> seq m' = seq m \<and> from m' = from m \<and> to m' = to m \<and>
      command m' = command m \<and> payload m' = payload m \<and> encrypted m' = encrypted m) \<and>
   (verify m i = Inr m' \<longrightarrow> m' = m) \<and>
   (encrypt m i = Inr m' \<longrightarrow>
      mode m' = mode m \<and> ttl m' = ttl m \<and> seq m' = seq m \<and> from m' = from m \<and> to m' = to m \<and>
      command m' = command m \<and> payload m' = payload m \<and> signature m' = signature m) \<and>
   (decrypt m i = Inr m' \<longrightarrow>
      mode m' = mode m \<and> ttl m' = ttl m \<and> seq m' = seq m \<and> from m' = from m \<and> to m' = to m \<and>
      command m' = command m \<and> encrypted m' = encrypted m \<and> signature m' = signature m)"
proof (intro conjI impI)
  assume "sign m i = Inr m'"
  then have "m' = m \<or> (\<exists>s. m' = m\<lparr>signature := s\<rparr>)" by (rule sign_result)
  then show "mode m' = mode m" "ttl m' = ttl m" "seq m' = seq m" "from m' = from m"
    "to m' = to m" "command m' = command m" "payload m' = payload m" "encrypted m' = encrypted m"
    by auto
next
  assume "verify m i = Inr m'"
  then show "m' = m" by (rule verify_result)
next
  assume "encrypt m i = Inr m'"
  then have "m' = m \<or> (\<exists>c. m' = m\<lparr>encrypted := c\<rparr>)" by (rule encrypt_result)
  then show "mode m' = mode m" "ttl m' = ttl m" "seq m' = seq m" "from m' = from m"
    "to m' = to m" "command m' = command m" "payload m' = payload m" "signature m' = signature m"
    by auto
next
  assume "decrypt m i = Inr m'"
  then have "m' = m \<or> (\<exists>p. m' = m\<lparr>payload := p\<rparr>)" by (rule decrypt_result)
  then show "mode m' = mode m" "ttl m' = ttl m" "seq m' = seq m" "from m' = from m"
    "to m' = to m" "command m' = command m" "encrypted m' = encrypted m" "signature m' = signature m"
    by auto
qed

theorem crypto_frame_witness:
  "sign (example_message 2) (Some (toy_identity alice)) =
     Inr ((example_message 2)\<lparr>signature := [3, 2, 1]\<rparr>) \<and>
   payload ((example_message 2)\<lparr>signature := [3, 2, 1]\<rparr>) = payload (example_message 2) \<and>
   verify ((example_message 2)\<lparr>signature := [3, 2, 1]\<rparr>) (Some (toy_identity alice)) =
     Inr ((example_message 2)\<lparr>signature := [3, 2, 1]\<rparr>) \<and>
   encrypt (example_message 1) (Some (toy_identity bob)) =
     Inr ((example_message 1)\<lparr>encrypted := [2, 3, 4]\<rparr>) \<and>
   payload ((example_message 1)\<lparr>encrypted := [2, 3, 4]\<rparr>) = payload (example_message 1) \<and>
   decrypt ((example_message 1)\<lparr>encrypted := [2, 3, 4], payload := []\<rparr>) (Some (toy_identity bob)) =
     Inr ((example_message 1)\<lparr>encrypted := [2, 3, 4], payload := [1, 2, 3]\<rparr>) \<and>
   encrypted ((example_message 1)\<lparr>encrypted := [2, 3, 4], payload := [1, 2, 3]\<rparr>) =
     encrypted ((example_message 1)\<lparr>encrypted := [2, 3, 4], payload := []\<rparr>)"
proof -
  let ?i = "Some (toy_identity alice)" and ?j = "Some (toy_identity bob)"
  let ?m2 = "example_message 2" and ?m1 = "example_message 1"
  let ?ms = "?m2\<lparr>signature := [3, 2, 1]\<rparr>"
  let ?me = "?m1\<lparr>encrypted := [2, 3, 4]\<rparr>"
  let ?mc = "?m1\<lparr>encrypted := [2, 3, 4], payload := []\<rparr>"
  let ?md = "?m1\<lparr>encrypted := [2, 3, 4], payload := [1, 2, 3]\<rparr>"
  have s: "sign ?m2 ?i = Inr ?ms"
    by (simp add: sign_def assert_identity_def) (simp add: toy_identity_def example_message_def)
  have v: "verify ?ms ?i = Inr ?ms"
    by (simp add: verify_def assert_identity_def) (simp add: toy_identity_def example_message_def)
  have e: "encrypt ?m1 ?j = Inr ?me"
    by (simp add: encrypt_def assert_identity_def) (simp add: toy_identity_def example_message_def)
  have d: "decrypt ?mc ?j = Inr ?md"
    by (simp add: decrypt_def assert_identity_def) (simp add: toy_identity_def example_message_def)
  from crypto_frame [of ?m2 ?i ?ms] s
  have fs: "payload ?ms = payload ?m2" by blast
  from crypto_frame [of ?ms ?i ?ms] v
  have fv: "?ms = ?ms" by blast
  from crypto_frame [of ?m1 ?j ?me] e
  have fe: "payload ?me = payload ?m1" by blast
  from crypto_frame [of ?mc ?j ?md] d
  have fd: "encrypted ?md = encrypted ?mc" by blast
  show ?thesis using s v e d fs fv fe fd by blast
qed

end
